theory Spec2Isabelle
  imports Main "HOL-Library.AList" "HOL-Library.Multiset"
begin

chapter \<open>The program\<close>

section \<open>Client-side pagination\<close>

text \<open>
  \<^verbatim>\<open>paginatedData\<close> of \<^verbatim>\<open>DoctorsList.tsx\<close>, \<^verbatim>\<open>DoctorsManagement.tsx\<close> and the reports
  pages; the page sizes offered are 10, 30 and 100.
\<close>

text \<open>
  \<^verbatim>\<open>Array.prototype.slice(start, end)\<close>: a negative index counts from the end, both
  indices are clamped to the array, and the result is empty when the clamped start is
  not before the clamped end.
\<close>

definition array_slice :: "'a list \<Rightarrow> int \<Rightarrow> int \<Rightarrow> 'a list" where
  "array_slice xs start end =
     (let len = int (length xs);
          k = (if start < 0 then max (len + start) 0 else min start len);
          final = (if end < 0 then max (len + end) 0 else min end len)
      in take (nat (final - k)) (drop (nat k) xs))"

text \<open>The page shown: \<^verbatim>\<open>sortedData.slice(startIndex, endIndex)\<close>.\<close>

definition paginatedData :: "'a list \<Rightarrow> int \<Rightarrow> int \<Rightarrow> 'a list" where
  "paginatedData sortedData currentPage itemsPerPage =
     (let startIndex = (currentPage - 1) * itemsPerPage;
          endIndex = startIndex + itemsPerPage
      in array_slice sortedData startIndex endIndex)"

text \<open>\<^verbatim>\<open>Math.ceil(total / itemsPerPage)\<close>, the number of pages the pager shows.\<close>

definition totalPages :: "nat \<Rightarrow> int \<Rightarrow> int" where
  "totalPages totalCount itemsPerPage = - ((- int totalCount) div itemsPerPage)"

section \<open>Strings and numbers of the runtime\<close>

definition digit_chars :: string where
  "digit_chars = ''0123456789''"

definition is_digit :: "char \<Rightarrow> bool" where
  "is_digit c = (c \<in> set digit_chars)"

definition digit_val :: "char \<Rightarrow> nat" where
  "digit_val c = of_char c - of_char CHR ''0''"

definition is_space :: "char \<Rightarrow> bool" where
  "is_space c = (c \<in> set [CHR '' '', CHR 0x09, CHR 0x0A, CHR 0x0B, CHR 0x0C, CHR 0x0D])"

text \<open>\<^verbatim>\<open>String(n)\<close> of a non-negative integer: its decimal digits.\<close>

fun number_toString :: "nat \<Rightarrow> string" where
  "number_toString n =
     (if n < 10 then [digit_chars ! n]
      else number_toString (n div 10) @ [digit_chars ! (n mod 10)])"

declare number_toString.simps [simp del]

definition digits_val :: "string \<Rightarrow> nat" where
  "digits_val ds = foldl (\<lambda>acc c. 10 * acc + digit_val c) 0 ds"

definition hex_val :: "char \<Rightarrow> nat option" where
  "hex_val c =
     (if is_digit c then Some (digit_val c)
      else if c \<in> set ''abcdef'' then Some (of_char c - of_char CHR ''a'' + 10)
      else if c \<in> set ''ABCDEF'' then Some (of_char c - of_char CHR ''A'' + 10)
      else None)"

definition hexdigits_val :: "string \<Rightarrow> nat" where
  "hexdigits_val ds = foldl (\<lambda>acc c. 16 * acc + (case hex_val c of Some v \<Rightarrow> v | None \<Rightarrow> 0)) 0 ds"

text \<open>
  \<^verbatim>\<open>parseInt(s)\<close> with no radix: leading white space and one sign are skipped, a
  \<^verbatim>\<open>0x\<close> prefix selects base 16, the longest run of digits is read, and the result
  is NaN (\<open>None\<close>) when there is no digit.
\<close>

definition parseInt :: "string \<Rightarrow> int option" where
  "parseInt s =
     (let s1 = dropWhile is_space s;
          sgn = (case s1 of c # _ \<Rightarrow> (if c = CHR ''-'' then - 1 else 1) | [] \<Rightarrow> (1::int));
          s2 = (case s1 of c # r \<Rightarrow> (if c = CHR ''-'' \<or> c = CHR ''+'' then r else s1) | [] \<Rightarrow> s1)
      in if take 2 s2 = ''0x'' \<or> take 2 s2 = ''0X'' then
           (let hs = takeWhile (\<lambda>c. hex_val c \<noteq> None) (drop 2 s2)
            in if hs = [] then None else Some (sgn * int (hexdigits_val hs)))
         else
           (let ds = takeWhile is_digit s2
            in if ds = [] then None else Some (sgn * int (digits_val ds))))"

text \<open>\<^verbatim>\<open>s.split(c)\<close> for a one-character separator.\<close>

fun split_on :: "char \<Rightarrow> string \<Rightarrow> string list" where
  "split_on c [] = [] # []"
| "split_on c (x # xs) =
     (if x = c then [] # split_on c xs
      else (case split_on c xs of w # ws \<Rightarrow> (x # w) # ws | [] \<Rightarrow> [x] # []))"

text \<open>Reading an array element that may be missing (\<^verbatim>\<open>undefined\<close> is \<open>None\<close>).\<close>

definition nth_opt :: "'a list \<Rightarrow> nat \<Rightarrow> 'a option" where
  "nth_opt xs i = (if i < length xs then Some (xs ! i) else None)"

text \<open>
  \<^verbatim>\<open>Array.prototype.sort(cmp)\<close> is a stable sort. When the comparator is consistent
  on the elements (\<open>consistent_comparator\<close> below, the conditions of the language
  standard), every engine returns the same array: the elements in comparator order,
  equal ones in their original order; that array is computed here by inserting each
  element before the first element it does not compare greater than. When the
  comparator is not consistent on the elements, the order is left to the engine, and
  \<open>array_sort\<close> gives only one of the orders an engine may return.
\<close>

fun insort_cmp :: "('a \<Rightarrow> 'a \<Rightarrow> int) \<Rightarrow> 'a \<Rightarrow> 'a list \<Rightarrow> 'a list" where
  "insort_cmp cmp x [] = [x]"
| "insort_cmp cmp x (y # ys) =
     (if cmp x y \<le> 0 then x # y # ys else y # insort_cmp cmp x ys)"

definition array_sort :: "('a \<Rightarrow> 'a \<Rightarrow> int) \<Rightarrow> 'a list \<Rightarrow> 'a list" where
  "array_sort cmp xs = foldr (insort_cmp cmp) xs []"

text \<open>
  A comparator is consistent on the elements of an array when comparing equal is
  reflexive, symmetric and transitive, and comparing less and comparing greater are
  transitive.
\<close>

definition consistent_comparator :: "('a \<Rightarrow> 'a \<Rightarrow> int) \<Rightarrow> 'a list \<Rightarrow> bool" where
  "consistent_comparator cmp xs =
     list_all (\<lambda>a. cmp a a = 0 \<and>
       list_all (\<lambda>b. (if cmp a b = 0 then cmp b a = 0 else True) \<and>
         list_all (\<lambda>c.
             (if cmp a b = 0 \<and> cmp b c = 0 then cmp a c = 0 else True)
           \<and> (if cmp a b < 0 \<and> cmp b c < 0 then cmp a c < 0 else True)
           \<and> (if cmp a b > 0 \<and> cmp b c > 0 then cmp a c > 0 else True)) xs) xs) xs"

section \<open>Remote query results\<close>

record SupabaseError =
  message :: string
  code :: "string option"

text \<open>
  A query resolves to \<^verbatim>\<open>{ data, error }\<close> (a count query to \<^verbatim>\<open>{ count, error }\<close>,
  whose count is held in \<open>resp_data\<close>); either part may be \<^verbatim>\<open>null\<close>.
\<close>

datatype 'a response = Response (resp_data: "'a option") (resp_error: "SupabaseError option")

section \<open>Admin dashboard: data\<close>

text \<open>The component \<^verbatim>\<open>AdminDashboard\<close> (\<^verbatim>\<open>src/unnamed/part_001\<close>).\<close>

datatype month_name = Jan | Feb | Mar | Apr | May | Jun | Jul | Aug | Sep | Oct | Nov | Dec

text \<open>
  \<^verbatim>\<open>new Date(visit.date)\<close> read in the local time zone: an invalid date, or a calendar
  year of the common era and a month.
\<close>

datatype js_date = InvalidDate | LocalDate (date_year: nat) (date_month: month_name)

record VisitData =
  date :: js_date

record VisitTrendItem =
  month :: string
  visits :: nat
  orders :: nat

record MonthCounts =
  month_visits :: nat
  month_orders :: nat

type_synonym MonthlyData = "(string \<times> MonthCounts) list"

record Stats =
  totalMRs :: nat
  mrIncrease :: nat
  totalDoctors :: nat
  doctorIncrease :: nat
  totalVisits :: nat
  visitIncrease :: nat
  totalMedicals :: nat
  medicalIncrease :: nat

record CoreQueries =
  mrsCount :: "nat response"
  doctorsCount :: "nat response"
  visitsCount :: "nat response"
  medicalsCount :: "nat response"
  allVisitsQuery :: "VisitData list response"

section \<open>Admin dashboard: visit trend\<close>

text \<open>The short month names of American English, which are the keys of \<open>monthMap\<close>, and
  the month's index in \<^verbatim>\<open>Date\<close>.\<close>

fun month_short :: "month_name \<Rightarrow> string" where
  "month_short Jan = ''Jan''" | "month_short Feb = ''Feb''" | "month_short Mar = ''Mar''"
| "month_short Apr = ''Apr''" | "month_short May = ''May''" | "month_short Jun = ''Jun''"
| "month_short Jul = ''Jul''" | "month_short Aug = ''Aug''" | "month_short Sep = ''Sep''"
| "month_short Oct = ''Oct''" | "month_short Nov = ''Nov''" | "month_short Dec = ''Dec''"

fun month_index :: "month_name \<Rightarrow> nat" where
  "month_index Jan = 0" | "month_index Feb = 1" | "month_index Mar = 2"
| "month_index Apr = 3" | "month_index May = 4" | "month_index Jun = 5"
| "month_index Jul = 6" | "month_index Aug = 7" | "month_index Sep = 8"
| "month_index Oct = 9" | "month_index Nov = 10" | "month_index Dec = 11"

text \<open>
  \<^verbatim>\<open>toLocaleString('default', { month: 'short', year: 'numeric' })\<close> formats in the
  locale of the runtime, which is not in the program's hands: how that locale writes a
  year and a month is the parameter \<open>localeFormat\<close>. An invalid date is written
  \<^verbatim>\<open>Invalid Date\<close> in every locale.
\<close>

type_synonym locale_format = "nat \<Rightarrow> month_name \<Rightarrow> string"

fun toLocaleString_month_year :: "locale_format \<Rightarrow> js_date \<Rightarrow> string" where
  "toLocaleString_month_year localeFormat InvalidDate = ''Invalid Date''"
| "toLocaleString_month_year localeFormat (LocalDate y m) = localeFormat y m"

text \<open>
  Two locales. American English writes \<^verbatim>\<open>Sep 2024\<close>; British English writes
  \<^verbatim>\<open>Sept 2024\<close> and agrees on the other eleven months.
\<close>

definition en_US_format :: locale_format where
  "en_US_format y m = month_short m @ '' '' @ number_toString y"

definition en_GB_format :: locale_format where
  "en_GB_format y m = (if m = Sep then ''Sept'' else month_short m) @ '' '' @ number_toString y"

definition monthMap :: "(string \<times> nat) list" where
  "monthMap =
     [(''Jan'', 0), (''Feb'', 1), (''Mar'', 2), (''Apr'', 3), (''May'', 4), (''Jun'', 5),
      (''Jul'', 6), (''Aug'', 7), (''Sep'', 8), (''Oct'', 9), (''Nov'', 10), (''Dec'', 11)]"

text \<open>The \<^verbatim>\<open>forEach\<close> body: create the month's entry when it is missing, then count
  the row once as a visit and once as an order.\<close>

definition monthly_step :: "locale_format \<Rightarrow> VisitData \<Rightarrow> MonthlyData \<Rightarrow> MonthlyData" where
  "monthly_step localeFormat visit monthlyData =
     (let mon = toLocaleString_month_year localeFormat (date visit);
          md1 = (if map_of monthlyData mon = None
                 then AList.update mon \<lparr>month_visits = 0, month_orders = 0\<rparr> monthlyData
                 else monthlyData);
          md2 = AList.map_entry mon (\<lambda>c. c\<lparr>month_visits := month_visits c + 1\<rparr>) md1;
          md3 = AList.map_entry mon (\<lambda>c. c\<lparr>month_orders := month_orders c + 1\<rparr>) md2
      in md3)"

definition monthlyData_of :: "locale_format \<Rightarrow> VisitData list option \<Rightarrow> MonthlyData" where
  "monthlyData_of localeFormat allVisits =
     (case allVisits of None \<Rightarrow> [] | Some vs \<Rightarrow> fold (monthly_step localeFormat) vs [])"

text \<open>
  \<^verbatim>\<open>new Date(year, monthIndex, 1).getTime()\<close>: NaN (\<open>None\<close>) when an argument is NaN
  or \<^verbatim>\<open>undefined\<close>; a year from 0 to 99 means 1900 + year. The time of the first day
  of a month grows strictly with the year and the month, in every time zone; it is
  counted here in months, which orders the same way as milliseconds.
\<close>

definition js_full_year :: "int \<Rightarrow> int" where
  "js_full_year y = (if 0 \<le> y \<and> y \<le> 99 then 1900 + y else y)"

definition first_of_month_time :: "int option \<Rightarrow> nat option \<Rightarrow> int option" where
  "first_of_month_time y m =
     (case y of None \<Rightarrow> None
      | Some yy \<Rightarrow> (case m of None \<Rightarrow> None | Some mm \<Rightarrow> Some (12 * js_full_year yy + int mm)))"

definition trend_time :: "string \<Rightarrow> int option" where
  "trend_time label =
     (let parts = split_on CHR '' '' label;
          aMonth = nth_opt parts 0;
          aYear = nth_opt parts 1
      in first_of_month_time
           (case aYear of None \<Rightarrow> None | Some s \<Rightarrow> parseInt s)
           (case aMonth of None \<Rightarrow> None | Some s \<Rightarrow> map_of monthMap s))"

text \<open>
  The comparator. A label whose first word is not a key of \<open>monthMap\<close> has no time,
  the difference is NaN, and a NaN result counts as 0 in \<^verbatim>\<open>sort\<close>.
\<close>

definition trend_cmp :: "VisitTrendItem \<Rightarrow> VisitTrendItem \<Rightarrow> int" where
  "trend_cmp a b =
     (case trend_time (month a) of None \<Rightarrow> 0
      | Some ta \<Rightarrow> (case trend_time (month b) of None \<Rightarrow> 0 | Some tb \<Rightarrow> ta - tb))"

text \<open>
  \<^verbatim>\<open>Object.keys(monthlyData).map(...)\<close>: the keys in insertion order; reading a key
  that is missing would raise a TypeError.
\<close>

fun trend_items :: "MonthlyData \<Rightarrow> string list \<Rightarrow> string + VisitTrendItem list" where
  "trend_items monthlyData [] = Inr []"
| "trend_items monthlyData (k # ks) =
     (case map_of monthlyData k of
        None \<Rightarrow> Inl ''Cannot read properties of undefined (reading 'visits')''
      | Some c \<Rightarrow>
          (case trend_items monthlyData ks of
             Inl e \<Rightarrow> Inl e
           | Inr items \<Rightarrow>
               Inr (\<lparr>month = k, visits = month_visits c, orders = month_orders c\<rparr> # items)))"

definition visitTrendArray ::
  "locale_format \<Rightarrow> VisitData list option \<Rightarrow> string + VisitTrendItem list" where
  "visitTrendArray localeFormat allVisits =
     (let monthlyData = monthlyData_of localeFormat allVisits
      in case trend_items monthlyData (map fst monthlyData) of
           Inl e \<Rightarrow> Inl e
         | Inr items \<Rightarrow> Inr (array_sort trend_cmp items))"

section \<open>Admin dashboard: state\<close>

record MRPerformance =
  perf_name :: string
  perf_visits :: nat
  orderValue :: int

datatype approval_type = Visit | User | Doctor | MedicalVisit

record PendingApproval =
  approval_id :: string
  name :: string
  type :: approval_type
  date_text :: "string option"
  doctorName :: "string option"
  email :: "string option"

text \<open>The component's state variables that the fetches below read or write.\<close>

record AdminDashboard =
  stats :: Stats
  visitTrend :: "VisitTrendItem list"
  topMRs :: "MRPerformance list"
  allTopMRsDataCache :: "MRPerformance list option"
  weeklyTopMRsDataCache :: "MRPerformance list option"
  dailyTopMRsDataCache :: "MRPerformance list option"
  pendingApprovals :: "PendingApproval list"
  loading :: bool
  error :: "string option"
  coreLoading :: bool
  pendingLoading :: bool
  topMRsLoading :: bool

text \<open>The initial values of the state variables.\<close>

definition AdminDashboard_init :: AdminDashboard where
  "AdminDashboard_init =
     \<lparr>stats = \<lparr>totalMRs = 0, mrIncrease = 0, totalDoctors = 0, doctorIncrease = 0,
               totalVisits = 0, visitIncrease = 0, totalMedicals = 0, medicalIncrease = 0\<rparr>,
      visitTrend = [],
      topMRs = [],
      allTopMRsDataCache = None,
      weeklyTopMRsDataCache = None,
      dailyTopMRsDataCache = None,
      pendingApprovals = [],
      loading = True,
      error = None,
      coreLoading = True,
      pendingLoading = True,
      topMRsLoading = True\<rparr>"

section \<open>Admin dashboard: core fetch\<close>

text \<open>\<^verbatim>\<open>count || 0\<close>: a \<^verbatim>\<open>null\<close> count reads as 0.\<close>

definition count_or_zero :: "nat response \<Rightarrow> nat" where
  "count_or_zero r = (case resp_data r of None \<Rightarrow> 0 | Some n \<Rightarrow> n)"

text \<open>
  The \<^verbatim>\<open>try\<close> block of \<^verbatim>\<open>fetchCoreDashboardData\<close>: the state it leaves, and the
  message of the Error it throws, if it throws. The four counts are awaited together
  and checked in order, the stats are set, and only then the trend query is awaited and
  checked.
\<close>

definition fetchCoreDashboardData_try ::
  "locale_format \<Rightarrow> CoreQueries \<Rightarrow> AdminDashboard \<Rightarrow> AdminDashboard \<times> string option" where
  "fetchCoreDashboardData_try localeFormat q s =
     (case resp_error (mrsCount q) of
        Some mrsError \<Rightarrow> (s, Some (''Failed to fetch MRs count: '' @ message mrsError))
      | None \<Rightarrow>
     (case resp_error (doctorsCount q) of
        Some doctorsError \<Rightarrow>
          (s, Some (''Failed to fetch doctors count: '' @ message doctorsError))
      | None \<Rightarrow>
     (case resp_error (visitsCount q) of
        Some visitsError \<Rightarrow>
          (s, Some (''Failed to fetch visits count: '' @ message visitsError))
      | None \<Rightarrow>
     (case resp_error (medicalsCount q) of
        Some medicalsError \<Rightarrow>
          (s, Some (''Failed to fetch medicals count: '' @ message medicalsError))
      | None \<Rightarrow>
     (let s1 = s\<lparr>stats :=
                 \<lparr>totalMRs = count_or_zero (mrsCount q), mrIncrease = 0,
                  totalDoctors = count_or_zero (doctorsCount q), doctorIncrease = 0,
                  totalVisits = count_or_zero (visitsCount q), visitIncrease = 0,
                  totalMedicals = count_or_zero (medicalsCount q), medicalIncrease = 0\<rparr>\<rparr>
      in case resp_error (allVisitsQuery q) of
           Some allVisitsError \<Rightarrow>
             (s1, Some (''Failed to fetch visit trend data: '' @ message allVisitsError))
         | None \<Rightarrow>
             (case visitTrendArray localeFormat (resp_data (allVisitsQuery q)) of
                Inl e \<Rightarrow> (s1, Some e)
              | Inr arr \<Rightarrow> (s1\<lparr>visitTrend := arr\<rparr>, None)))))))"

definition fetchCoreDashboardData ::
  "locale_format \<Rightarrow> CoreQueries \<Rightarrow> AdminDashboard \<Rightarrow> AdminDashboard" where
  "fetchCoreDashboardData localeFormat q s =
     (let s0 = s\<lparr>coreLoading := True, error := None\<rparr>;
          (s1, thrown) = fetchCoreDashboardData_try localeFormat q s0;
          s2 = (case thrown of
                  None \<Rightarrow> s1
                | Some errorMessage \<Rightarrow>
                    s1\<lparr>error := Some (''Failed to fetch dashboard data: '' @ errorMessage)\<rparr>)
      in s2\<lparr>coreLoading := False\<rparr>)"

section \<open>Visit trend: calendar order and buckets\<close>

text \<open>Calendar order of two dates by year, then month.\<close>

fun chrono_before :: "js_date \<Rightarrow> js_date \<Rightarrow> bool" where
  "chrono_before (LocalDate y m) (LocalDate y' m') =
     (y < y' \<or> (y = y' \<and> month_index m < month_index m'))"
| "chrono_before _ _ = False"

text \<open>
  A visit returned by the query \<^verbatim>\<open>gte('date', sixMonthsAgoISO)\<close>: dated in the month
  of \<open>sixMonthsAgo\<close> or later.
\<close>

definition in_trailing_window :: "js_date \<Rightarrow> VisitData \<Rightarrow> bool" where
  "in_trailing_window sixMonthsAgo visit =
     (date visit = sixMonthsAgo \<or> chrono_before sixMonthsAgo (date visit))"

text \<open>The bucket of a calendar month: its label and the number of fetched visits in it.\<close>

definition month_bucket :: "locale_format \<Rightarrow> VisitData list \<Rightarrow> js_date \<Rightarrow> VisitTrendItem" where
  "month_bucket localeFormat allVisits d =
     \<lparr>month = toLocaleString_month_year localeFormat d,
      visits = length (filter (\<lambda>v. date v = d) allVisits),
      orders = length (filter (\<lambda>v. date v = d) allVisits)\<rparr>"

text \<open>The rows the \<^verbatim>\<open>forEach\<close> walks over: none when the data is \<^verbatim>\<open>null\<close>.\<close>

definition fetched_rows :: "VisitData list option \<Rightarrow> VisitData list" where
  "fetched_rows allVisits = (case allVisits of None \<Rightarrow> [] | Some vs \<Rightarrow> vs)"

text \<open>Counts added to a month's entry, and the entry a month starts with.\<close>

definition bump_counts :: "MonthCounts \<Rightarrow> nat \<Rightarrow> MonthCounts" where
  "bump_counts c n = c\<lparr>month_visits := month_visits c + n, month_orders := month_orders c + n\<rparr>"

definition zero_counts :: MonthCounts where
  "zero_counts = \<lparr>month_visits = 0, month_orders = 0\<rparr>"

text \<open>The position of a month on the calendar, counted in months.\<close>

definition chrono_key :: "js_date \<Rightarrow> int" where
  "chrono_key d = (case d of InvalidDate \<Rightarrow> 0
     | LocalDate y m \<Rightarrow> 12 * int y + int (month_index m))"

section \<open>Admin dashboard: pending approvals\<close>

text \<open>\<^verbatim>\<open>value || fallback\<close> on a string that may be \<^verbatim>\<open>null\<close>: an empty string is falsy too.\<close>

definition or_default :: "string option \<Rightarrow> string \<Rightarrow> string" where
  "or_default v fallback = (case v of None \<Rightarrow> fallback | Some s \<Rightarrow> if s = [] then fallback else s)"

text \<open>\<^verbatim>\<open>data?.map(f) || []\<close>\<close>

definition map_or_empty :: "('a \<Rightarrow> 'b) \<Rightarrow> 'a list option \<Rightarrow> 'b list" where
  "map_or_empty f rows = (case rows of None \<Rightarrow> [] | Some xs \<Rightarrow> map f xs)"

text \<open>\<^verbatim>\<open>Array.from(new Set(xs))\<close>: the first occurrence of every element, in order.\<close>

definition array_from_set :: "'a list \<Rightarrow> 'a list" where
  "array_from_set xs = fold (\<lambda>x acc. if x \<in> set acc then acc else acc @ [x]) xs []"

record PendingVisitData =
  pv_id :: string
  pv_date :: string
  pv_mr_id :: string
  pv_doctors :: "string option"

record PendingUserRow =
  user_id :: string
  user_name :: "string option"
  user_email :: "string option"

record PendingDoctorRow =
  doctor_id :: string
  doctor_name :: string

record PendingMedicalVisitRow =
  mv_id :: string
  mv_visit_date :: string
  mv_mr_id :: string

record MRProfile =
  profile_id :: string
  profile_name :: string

text \<open>
  The four pending queries, and the profiles query \<^verbatim>\<open>.in('id', ids)\<close> as a function of
  the ids asked for.
\<close>

record PendingQueries =
  pendingVisitsQuery :: "PendingVisitData list response"
  pendingUsersQuery :: "PendingUserRow list response"
  pendingDoctorsQuery :: "PendingDoctorRow list response"
  pendingMedicalVisitsQuery :: "PendingMedicalVisitRow list response"
  mrDataQuery :: "string list \<Rightarrow> MRProfile list response"

text \<open>\<^verbatim>\<open>new Map(rows.map(mr => [mr.id, mr.name]))\<close>: a later row replaces an earlier one
  with the same id.\<close>

definition mrMap_of :: "MRProfile list option \<Rightarrow> (string \<times> string) list" where
  "mrMap_of mrData =
     fold (\<lambda>mr m. AList.update (profile_id mr) (profile_name mr) m)
       (case mrData of None \<Rightarrow> [] | Some rows \<Rightarrow> rows) []"

text \<open>
  The formatting of the four kinds of rows. \<open>toLocaleDateString\<close> stands for
  \<^verbatim>\<open>new Date(s).toLocaleDateString()\<close>, which depends on the browser's locale.
\<close>

definition formatPendingVisit ::
  "(string \<Rightarrow> string) \<Rightarrow> (string \<times> string) list \<Rightarrow> PendingVisitData \<Rightarrow> PendingApproval" where
  "formatPendingVisit toLocaleDateString mrMap visit =
     \<lparr>approval_id = pv_id visit,
      name = or_default (map_of mrMap (pv_mr_id visit)) ''Unknown MR'',
      type = Visit,
      date_text = Some (toLocaleDateString (pv_date visit)),
      doctorName = pv_doctors visit,
      email = None\<rparr>"

definition formatPendingUser :: "PendingUserRow \<Rightarrow> PendingApproval" where
  "formatPendingUser user =
     \<lparr>approval_id = user_id user,
      name = or_default (user_name user) ''Unknown User'',
      type = User,
      date_text = None,
      doctorName = None,
      email = Some (or_default (user_email user) ''N/A'')\<rparr>"

definition formatPendingDoctor :: "PendingDoctorRow \<Rightarrow> PendingApproval" where
  "formatPendingDoctor doctor =
     \<lparr>approval_id = doctor_id doctor,
      name = doctor_name doctor,
      type = Doctor,
      date_text = None,
      doctorName = None,
      email = None\<rparr>"

definition formatPendingMedicalVisit ::
  "(string \<Rightarrow> string) \<Rightarrow> (string \<times> string) list \<Rightarrow> PendingMedicalVisitRow \<Rightarrow> PendingApproval" where
  "formatPendingMedicalVisit toLocaleDateString mrMap visit =
     \<lparr>approval_id = mv_id visit,
      name = or_default (map_of mrMap (mv_mr_id visit)) ''Unknown MR'',
      type = MedicalVisit,
      date_text = Some (toLocaleDateString (mv_visit_date visit)),
      doctorName = Some ''No doctors assigned'',
      email = None\<rparr>"

text \<open>The \<^verbatim>\<open>try\<close> block of \<^verbatim>\<open>fetchPendingApprovals\<close>: the merged list, or the message
  of the Error thrown.\<close>

definition fetchPendingApprovals_try ::
  "(string \<Rightarrow> string) \<Rightarrow> PendingQueries \<Rightarrow> string + PendingApproval list" where
  "fetchPendingApprovals_try toLocaleDateString q =
     (case resp_error (pendingVisitsQuery q) of
        Some e \<Rightarrow> Inl (''Failed to fetch pending visits: '' @ message e)
      | None \<Rightarrow>
     (case resp_error (pendingUsersQuery q) of
        Some e \<Rightarrow> Inl (''Failed to fetch pending users: '' @ message e)
      | None \<Rightarrow>
     (case resp_error (pendingDoctorsQuery q) of
        Some e \<Rightarrow> Inl (''Failed to fetch pending doctors: '' @ message e)
      | None \<Rightarrow>
     (case resp_error (pendingMedicalVisitsQuery q) of
        Some e \<Rightarrow> Inl (''Failed to fetch pending medical visits: '' @ message e)
      | None \<Rightarrow>
     (let pendingVisitsData = resp_data (pendingVisitsQuery q);
          pendingUsersData = resp_data (pendingUsersQuery q);
          pendingDoctorsData = resp_data (pendingDoctorsQuery q);
          pendingMedicalVisitsData = resp_data (pendingMedicalVisitsQuery q);
          allMrIds = array_from_set
            (map_or_empty pv_mr_id pendingVisitsData @ map_or_empty mv_mr_id pendingMedicalVisitsData);
          mrResult =
            (if length allMrIds > 0 then
               (case resp_error (mrDataQuery q allMrIds) of
                  Some e \<Rightarrow> Inl (''Failed to fetch MR data: '' @ message e)
                | None \<Rightarrow> Inr (mrMap_of (resp_data (mrDataQuery q allMrIds))))
             else Inr [])
      in case mrResult of
           Inl e \<Rightarrow> Inl e
         | Inr mrMap \<Rightarrow>
             (let formattedPendingVisits =
                    map_or_empty (formatPendingVisit toLocaleDateString mrMap) pendingVisitsData;
                  formattedPendingUsers = map_or_empty formatPendingUser pendingUsersData;
                  formattedPendingDoctors = map_or_empty formatPendingDoctor pendingDoctorsData;
                  formattedPendingMedicalVisits =
                    map_or_empty (formatPendingMedicalVisit toLocaleDateString mrMap)
                      pendingMedicalVisitsData
              in Inr (formattedPendingVisits @ formattedPendingUsers @ formattedPendingDoctors
                      @ formattedPendingMedicalVisits)))))))"

definition fetchPendingApprovals ::
  "(string \<Rightarrow> string) \<Rightarrow> PendingQueries \<Rightarrow> AdminDashboard \<Rightarrow> AdminDashboard" where
  "fetchPendingApprovals toLocaleDateString q s =
     (let s0 = s\<lparr>pendingLoading := True\<rparr>;
          s1 = (case fetchPendingApprovals_try toLocaleDateString q of
                  Inr allPendingApprovals \<Rightarrow> s0\<lparr>pendingApprovals := allPendingApprovals\<rparr>
                | Inl errorMessage \<Rightarrow>
                    s0\<lparr>error := Some (''Failed to fetch pending approvals: '' @ errorMessage)\<rparr>)
      in s1\<lparr>pendingLoading := False\<rparr>)"

text \<open>The number of rows a query returned (\<^verbatim>\<open>null\<close> data has none).\<close>

definition row_count :: "'a list response \<Rightarrow> nat" where
  "row_count r = (case resp_data r of None \<Rightarrow> 0 | Some rows \<Rightarrow> length rows)"

section \<open>Core fetch: which query failed\<close>

definition core_failed :: "CoreQueries \<Rightarrow> bool" where
  "core_failed q =
     (resp_error (mrsCount q) \<noteq> None \<or> resp_error (doctorsCount q) \<noteq> None
      \<or> resp_error (visitsCount q) \<noteq> None \<or> resp_error (medicalsCount q) \<noteq> None
      \<or> resp_error (allVisitsQuery q) \<noteq> None)"

definition count_failed :: "CoreQueries \<Rightarrow> bool" where
  "count_failed q =
     (resp_error (mrsCount q) \<noteq> None \<or> resp_error (doctorsCount q) \<noteq> None
      \<or> resp_error (visitsCount q) \<noteq> None \<or> resp_error (medicalsCount q) \<noteq> None)"

definition fetched_stats :: "CoreQueries \<Rightarrow> Stats" where
  "fetched_stats q =
     \<lparr>totalMRs = count_or_zero (mrsCount q), mrIncrease = 0,
      totalDoctors = count_or_zero (doctorsCount q), doctorIncrease = 0,
      totalVisits = count_or_zero (visitsCount q), visitIncrease = 0,
      totalMedicals = count_or_zero (medicalsCount q), medicalIncrease = 0\<rparr>"

section \<open>Admin dashboard: top MRs\<close>

record ApprovedVisitRow =
  row_id :: string
  row_mr_id :: string

record VisitOrderRow =
  visit_id :: string
  row_quantity :: int

record VisitOrder =
  quantity :: int

record Visit =
  id_of_visit :: string
  mr_id :: string
  visit_orders :: "VisitOrder list"

text \<open>
  The three queries of \<^verbatim>\<open>fetchAndProcessMRPerformance\<close>: the MR profiles, the approved
  visits (as a function of the bounds \<^verbatim>\<open>gte('date', start)\<close> and \<^verbatim>\<open>lte('date', end)\<close>
  that are added when given), and the orders of a list of visit ids.
\<close>

record MRQueries =
  mrsQuery :: "MRProfile list response"
  approvedVisitsQuery :: "string option \<Rightarrow> string option \<Rightarrow> ApprovedVisitRow list response"
  visitOrdersQuery :: "string list \<Rightarrow> VisitOrderRow list response"

text \<open>The \<^verbatim>\<open>forEach\<close> that groups the orders by visit id.\<close>

definition visitOrdersMap_step ::
  "VisitOrderRow \<Rightarrow> (string \<times> VisitOrder list) list \<Rightarrow> (string \<times> VisitOrder list) list" where
  "visitOrdersMap_step order' visitOrdersMap =
     (let m1 = (if map_of visitOrdersMap (visit_id order') = None
                then AList.update (visit_id order') [] visitOrdersMap
                else visitOrdersMap)
      in AList.map_entry (visit_id order') (\<lambda>l. l @ [\<lparr>quantity = row_quantity order'\<rparr>]) m1)"

definition fullApprovedVisits_of ::
  "(string \<times> VisitOrder list) list \<Rightarrow> ApprovedVisitRow list option \<Rightarrow> Visit list" where
  "fullApprovedVisits_of visitOrdersMap approvedVisitsData =
     map_or_empty
       (\<lambda>v. \<lparr>id_of_visit = row_id v, mr_id = row_mr_id v,
              visit_orders = (case map_of visitOrdersMap (row_id v) of None \<Rightarrow> [] | Some l \<Rightarrow> l)\<rparr>)
       approvedVisitsData"

definition mr_performance :: "Visit list \<Rightarrow> MRProfile \<Rightarrow> MRPerformance" where
  "mr_performance fullApprovedVisits mr =
     (let mrSpecificVisits = filter (\<lambda>visit. mr_id visit = profile_id mr) fullApprovedVisits;
          totalOrderValue =
            foldl (\<lambda>sum' visit.
                     sum' + foldl (\<lambda>orderSum orderItem. orderSum + quantity orderItem) 0
                              (visit_orders visit))
              0 mrSpecificVisits
      in \<lparr>perf_name = profile_name mr,
          perf_visits = length mrSpecificVisits,
          orderValue = totalOrderValue\<rparr>)"

text \<open>
  \<^verbatim>\<open>fetchAndProcessMRPerformance(startDate, endDate)\<close>: the ranking, or the query error
  it throws.
\<close>

definition fetchAndProcessMRPerformance ::
  "MRQueries \<Rightarrow> string option \<Rightarrow> string option \<Rightarrow> SupabaseError + MRPerformance list" where
  "fetchAndProcessMRPerformance q startDate endDate =
     (case resp_error (mrsQuery q) of
        Some mrsDataError \<Rightarrow> Inl mrsDataError
      | None \<Rightarrow>
     (case resp_error (approvedVisitsQuery q startDate endDate) of
        Some approvedVisitsError \<Rightarrow> Inl approvedVisitsError
      | None \<Rightarrow>
     (let mrsData = resp_data (mrsQuery q);
          approvedVisitsData = resp_data (approvedVisitsQuery q startDate endDate);
          visitIds = map_or_empty row_id approvedVisitsData;
          ordersResult =
            (if length visitIds > 0 then
               (case resp_error (visitOrdersQuery q visitIds) of
                  Some ordersErrorForVisits \<Rightarrow> Inl ordersErrorForVisits
                | None \<Rightarrow>
                    Inr (case resp_data (visitOrdersQuery q visitIds) of
                           None \<Rightarrow> [] | Some rows \<Rightarrow> rows))
             else Inr [])
      in case ordersResult of
           Inl e \<Rightarrow> Inl e
         | Inr allVisitOrdersData \<Rightarrow>
             (let visitOrdersMap = fold visitOrdersMap_step allVisitOrdersData [];
                  fullApprovedVisits = fullApprovedVisits_of visitOrdersMap approvedVisitsData;
                  mrPerformance = map_or_empty (mr_performance fullApprovedVisits) mrsData;
                  sorted' = array_sort (\<lambda>a b. int (perf_visits b) - int (perf_visits a)) mrPerformance
              in Inr (filter (\<lambda>mr. perf_visits mr > 0) sorted')))))"

text \<open>
  \<^verbatim>\<open>error instanceof Error ? error.message : String(error)\<close> for a query error that was
  thrown as it is: whether such an object is an \<^verbatim>\<open>Error\<close> depends on the version of the
  client library, so it is a parameter.
\<close>

definition thrown_message :: "bool \<Rightarrow> SupabaseError \<Rightarrow> string" where
  "thrown_message instanceofError e = (if instanceofError then message e else ''[object Object]'')"

text \<open>
  \<^verbatim>\<open>fetchTopMRs\<close>: the three windows are fetched one after the other; \<open>weeklyStart\<close>
  and \<open>today\<close> are the ISO strings of the two dates it computes.
\<close>

definition fetchTopMRs ::
  "bool \<Rightarrow> MRQueries \<Rightarrow> string \<Rightarrow> string \<Rightarrow> AdminDashboard \<Rightarrow> AdminDashboard" where
  "fetchTopMRs instanceofError q weeklyStart today s =
     (let s0 = s\<lparr>topMRsLoading := True\<rparr>;
          s1 =
            (case fetchAndProcessMRPerformance q None None of
               Inl e \<Rightarrow> s0\<lparr>error := Some (''Failed to fetch top MRs: '' @ thrown_message instanceofError e)\<rparr>
             | Inr allTopMRs \<Rightarrow>
            (case fetchAndProcessMRPerformance q (Some weeklyStart) (Some today) of
               Inl e \<Rightarrow> s0\<lparr>error := Some (''Failed to fetch top MRs: '' @ thrown_message instanceofError e)\<rparr>
             | Inr weeklyTopMRs \<Rightarrow>
            (case fetchAndProcessMRPerformance q (Some today) (Some today) of
               Inl e \<Rightarrow> s0\<lparr>error := Some (''Failed to fetch top MRs: '' @ thrown_message instanceofError e)\<rparr>
             | Inr dailyTopMRs \<Rightarrow>
                 s0\<lparr>allTopMRsDataCache := Some allTopMRs,
                    weeklyTopMRsDataCache := Some weeklyTopMRs,
                    dailyTopMRsDataCache := Some dailyTopMRs,
                    topMRs := allTopMRs\<rparr>)))
      in s1\<lparr>topMRsLoading := False\<rparr>)"

datatype top_filter = weekly | daily | all_time

text \<open>The effect that copies the cache of the selected window into \<open>topMRs\<close>.\<close>

definition select_topMRs :: "top_filter \<Rightarrow> AdminDashboard \<Rightarrow> AdminDashboard" where
  "select_topMRs filter' s =
     (case filter' of
        all_time \<Rightarrow> s\<lparr>topMRs := (case allTopMRsDataCache s of None \<Rightarrow> [] | Some l \<Rightarrow> l)\<rparr>
      | weekly \<Rightarrow> s\<lparr>topMRs := (case weeklyTopMRsDataCache s of None \<Rightarrow> [] | Some l \<Rightarrow> l)\<rparr>
      | daily \<Rightarrow> s\<lparr>topMRs := (case dailyTopMRsDataCache s of None \<Rightarrow> [] | Some l \<Rightarrow> l)\<rparr>)"

text \<open>The bounds each selectable window is fetched with.\<close>

definition window_bounds :: "top_filter \<Rightarrow> string \<Rightarrow> string \<Rightarrow> string option \<times> string option" where
  "window_bounds filter' weeklyStart today =
     (case filter' of
        all_time \<Rightarrow> (None, None)
      | weekly \<Rightarrow> (Some weeklyStart, Some today)
      | daily \<Rightarrow> (Some today, Some today))"

text \<open>The number of approved visits of an MR among the rows a window's query returned.\<close>

definition approved_count :: "ApprovedVisitRow list option \<Rightarrow> MRProfile \<Rightarrow> nat" where
  "approved_count approvedVisitsData mr =
     length (filter (\<lambda>v. row_mr_id v = profile_id mr)
       (case approvedVisitsData of None \<Rightarrow> [] | Some rows \<Rightarrow> rows))"

text \<open>A sample answer of the store: three MRs, three approved visits, no orders.\<close>

definition sample_mr_queries :: MRQueries where
  "sample_mr_queries =
     \<lparr>mrsQuery = Response (Some [\<lparr>profile_id = ''m1'', profile_name = ''Asha''\<rparr>,
                                  \<lparr>profile_id = ''m2'', profile_name = ''Ravi''\<rparr>,
                                  \<lparr>profile_id = ''m3'', profile_name = ''Zoya''\<rparr>]) None,
      approvedVisitsQuery = (\<lambda>a b. Response (Some [\<lparr>row_id = ''v1'', row_mr_id = ''m2''\<rparr>,
                                  \<lparr>row_id = ''v2'', row_mr_id = ''m1''\<rparr>,
                                  \<lparr>row_id = ''v3'', row_mr_id = ''m2''\<rparr>]) None),
      visitOrdersQuery = (\<lambda>ids. Response (Some []) None)\<rparr>"

section \<open>Admin dashboard: approving and rejecting\<close>

datatype action_type = Report | Approval approval_type

text \<open>
  The write each branch of \<^verbatim>\<open>handleApprove\<close> and \<^verbatim>\<open>handleReject\<close> sends: the table
  and the change. The remote store answers a write on a row with \<^verbatim>\<open>{ error }\<close>.
\<close>

fun approve_write :: "action_type \<Rightarrow> string \<times> string" where
  "approve_write Report = (''reports'', ''update status = approved'')"
| "approve_write (Approval Visit) = (''visits'', ''update status = approved'')"
| "approve_write (Approval User) = (''profiles'', ''update status = active'')"
| "approve_write (Approval Doctor) = (''doctors'', ''update is_verified = true'')"
| "approve_write (Approval MedicalVisit) = (''medical_visits'', ''update status = approved'')"

fun reject_write :: "action_type \<Rightarrow> string \<times> string" where
  "reject_write Report = (''reports'', ''update status = rejected'')"
| "reject_write (Approval Visit) = (''visits'', ''update status = rejected'')"
| "reject_write (Approval User) = (''profiles'', ''update status = inactive'')"
| "reject_write (Approval Doctor) = (''doctors'', ''delete'')"
| "reject_write (Approval MedicalVisit) = (''medical_visits'', ''update status = rejected'')"

text \<open>
  \<^verbatim>\<open>handleApprove(id, type)\<close>. A failed write is thrown as it is and caught: the error is
  shown and \<open>loading\<close> is cleared. After a successful write the core data is fetched
  again; that fetch is not awaited, and the state given here is the one it ends in.
\<close>

definition handleApprove ::
  "bool \<Rightarrow> (string \<times> string \<Rightarrow> string \<Rightarrow> unit response) \<Rightarrow> locale_format \<Rightarrow> CoreQueries
     \<Rightarrow> string \<Rightarrow> action_type \<Rightarrow> AdminDashboard \<Rightarrow> AdminDashboard" where
  "handleApprove instanceofError write localeFormat q ident type' s =
     (let s0 = s\<lparr>loading := True, error := None\<rparr>
      in case resp_error (write (approve_write type') ident) of
           Some e \<Rightarrow> s0\<lparr>error := Some (thrown_message instanceofError e), loading := False\<rparr>
         | None \<Rightarrow> fetchCoreDashboardData localeFormat q s0)"

definition handleReject ::
  "bool \<Rightarrow> (string \<times> string \<Rightarrow> string \<Rightarrow> unit response) \<Rightarrow> locale_format \<Rightarrow> CoreQueries
     \<Rightarrow> string \<Rightarrow> action_type \<Rightarrow> AdminDashboard \<Rightarrow> AdminDashboard" where
  "handleReject instanceofError write localeFormat q ident type' s =
     (let s0 = s\<lparr>loading := True, error := None\<rparr>
      in case resp_error (write (reject_write type') ident) of
           Some e \<Rightarrow> s0\<lparr>error := Some (thrown_message instanceofError e), loading := False\<rparr>
         | None \<Rightarrow> fetchCoreDashboardData localeFormat q s0)"

section \<open>Visit reports page\<close>

text \<open>The component \<^verbatim>\<open>ReportPage\<close> (\<^verbatim>\<open>src/unnamed/part_002\<close>).\<close>

datatype user_role = Admin | MR

text \<open>
  A joined relation in a row: \<^verbatim>\<open>null\<close> or absent, an object flagged
  \<^verbatim>\<open>error === true\<close> (what \<^verbatim>\<open>isNestedQueryError\<close> recognises), or the related row.
\<close>

datatype 'a nested = Null | NestedQueryError | Obj 'a

text \<open>A related row \<^verbatim>\<open>{ id, name }\<close>; a field that is absent reads as the empty
  string, which is falsy like \<^verbatim>\<open>undefined\<close>.\<close>

record IdName =
  row_ident :: string
  row_name :: string

record FilterOption =
  opt_value :: string
  opt_label :: string

record FilterOptionsVisitData =
  fv_doctors :: "IdName nested"
  fv_visit_orders :: "IdName nested nested list option"

record MedicineOrderSummary =
  medicineName :: string
  summary_quantity :: int

record ReportOrder =
  order_quantity :: int
  order_medicines :: "IdName nested"

record ReportVisitData =
  rv_id :: string
  rv_date :: string
  rv_status :: string
  rv_mr_id :: string
  rv_doctors :: "IdName nested"
  rv_visit_orders :: "ReportOrder nested list option"

record ReportEntry =
  entry_id :: string
  mrId :: string
  mrName :: string
  doctorId :: string
  doctor :: string
  entry_date :: string
  status :: string
  medicines :: "MedicineOrderSummary list"
  uniqueRowId :: string

record ReportPage =
  processedData :: "ReportEntry list"
  report_loading :: bool
  report_error :: "string option"
  mrOptions :: "FilterOption list"
  doctorOptions :: "FilterOption list"
  medicineOptions :: "FilterOption list"

definition ReportPage_init :: ReportPage where
  "ReportPage_init =
     \<lparr>processedData = [], report_loading = False, report_error = None,
      mrOptions = [], doctorOptions = [], medicineOptions = []\<rparr>"

record FilterQueries =
  mrOptionsQuery :: "IdName list response"
  doctorOptionsQuery :: "IdName list response"
  medicineOptionsQuery :: "IdName list response"
  mrVisitsQuery :: "string \<Rightarrow> FilterOptionsVisitData list response"

definition option_of :: "IdName \<Rightarrow> FilterOption" where
  "option_of r = \<lparr>opt_value = row_ident r, opt_label = row_name r\<rparr>"

text \<open>\<^verbatim>\<open>map.set(row.id, { value: row.id, label: row.name })\<close> when the relation is a row
  with a non-empty id and name.\<close>

definition set_option :: "IdName nested \<Rightarrow> (string \<times> FilterOption) list \<Rightarrow> (string \<times> FilterOption) list" where
  "set_option rel m =
     (case rel of
        Obj r \<Rightarrow> (if row_ident r \<noteq> [] \<and> row_name r \<noteq> []
                  then AList.update (row_ident r) (option_of r) m else m)
      | _ \<Rightarrow> m)"

text \<open>The medicines of a visit's orders; an order flagged as an error is skipped.\<close>

definition order_medicine_step ::
  "IdName nested nested \<Rightarrow> (string \<times> FilterOption) list \<Rightarrow> (string \<times> FilterOption) list" where
  "order_medicine_step order' medicineMap =
     (case order' of
        NestedQueryError \<Rightarrow> medicineMap
      | Null \<Rightarrow> medicineMap
      | Obj med \<Rightarrow> set_option med medicineMap)"

definition filter_visit_step ::
  "FilterOptionsVisitData
     \<Rightarrow> (string \<times> FilterOption) list \<times> (string \<times> FilterOption) list
     \<Rightarrow> (string \<times> FilterOption) list \<times> (string \<times> FilterOption) list" where
  "filter_visit_step visit maps =
     (let doctorMap = set_option (fv_doctors visit) (fst maps);
          medicineMap = (case fv_visit_orders visit of
                           None \<Rightarrow> snd maps
                         | Some os \<Rightarrow> fold order_medicine_step os (snd maps))
      in (doctorMap, medicineMap))"

text \<open>
  The \<^verbatim>\<open>try\<close> block of \<^verbatim>\<open>fetchFilterOptions(mrId)\<close>: the state it leaves and the message
  of the Error it throws, if it throws.
\<close>

definition fetchFilterOptions_try ::
  "user_role \<Rightarrow> string \<Rightarrow> FilterQueries \<Rightarrow> ReportPage \<Rightarrow> ReportPage \<times> string option" where
  "fetchFilterOptions_try userRole mrId' q s =
     (case (resp_error (mrOptionsQuery q), resp_data (mrOptionsQuery q)) of
        (None, Some mrData) \<Rightarrow>
          (let s1 = s\<lparr>mrOptions := map option_of mrData\<rparr>
           in if userRole = Admin \<and> mrId' = ''all'' then
                (case (resp_error (doctorOptionsQuery q), resp_data (doctorOptionsQuery q)) of
                   (None, Some doctors) \<Rightarrow>
                     (case (resp_error (medicineOptionsQuery q), resp_data (medicineOptionsQuery q)) of
                        (None, Some medicines') \<Rightarrow>
                          (s1\<lparr>doctorOptions := map option_of doctors,
                              medicineOptions := map option_of medicines'\<rparr>, None)
                      | _ \<Rightarrow> (s1, Some ''Failed to fetch medicines''))
                 | _ \<Rightarrow> (s1, Some ''Failed to fetch doctors''))
              else
                (case (resp_error (mrVisitsQuery q mrId'), resp_data (mrVisitsQuery q mrId')) of
                   (None, Some visits') \<Rightarrow>
                     (let maps = fold filter_visit_step visits' ([], [])
                      in (s1\<lparr>doctorOptions := map snd (fst maps),
                             medicineOptions := map snd (snd maps)\<rparr>, None))
                 | _ \<Rightarrow> (s1, Some ''Visit fetch failed'')))
      | _ \<Rightarrow> (s, Some ''Failed to fetch MR options''))"

text \<open>
  \<^verbatim>\<open>fetchFilterOptions\<close>: \<open>loading\<close> is set at the start; the \<^verbatim>\<open>catch\<close> block shows the
  error and empties the three option lists; the \<^verbatim>\<open>finally\<close> block is empty (``leave
  loading = true; let fetchReports clear it'').
\<close>

definition fetchFilterOptions ::
  "user_role \<Rightarrow> string \<Rightarrow> FilterQueries \<Rightarrow> ReportPage \<Rightarrow> ReportPage" where
  "fetchFilterOptions userRole mrId' q s =
     (let s0 = s\<lparr>report_loading := True\<rparr>;
          (s1, thrown) = fetchFilterOptions_try userRole mrId' q s0
      in case thrown of
           None \<Rightarrow> s1
         | Some msg \<Rightarrow>
             s1\<lparr>report_error := Some (or_default (Some msg) ''Failed to load filter options.''),
                mrOptions := [], doctorOptions := [], medicineOptions := []\<rparr>)"

record ReportQueries =
  getUser :: "string option"
  reportVisitsQuery :: "string option \<Rightarrow> ReportVisitData list response"
  reportProfilesQuery :: "string list \<Rightarrow> MRProfile list response"

definition medicine_summary_step ::
  "ReportOrder nested \<Rightarrow> MedicineOrderSummary list \<Rightarrow> MedicineOrderSummary list" where
  "medicine_summary_step order' medicineSummary =
     (case order' of
        Obj typedOrder \<Rightarrow>
          (case order_medicines typedOrder of
             Obj typedMed \<Rightarrow>
               (if row_name typedMed \<noteq> []
                then medicineSummary @ [\<lparr>medicineName = row_name typedMed,
                                          summary_quantity = order_quantity typedOrder\<rparr>]
                else medicineSummary)
           | _ \<Rightarrow> medicineSummary)
      | _ \<Rightarrow> medicineSummary)"

definition report_entry :: "(string \<times> string) list \<Rightarrow> ReportVisitData \<Rightarrow> ReportEntry" where
  "report_entry mrMap visit =
     (let orders' = (case rv_visit_orders visit of None \<Rightarrow> [] | Some os \<Rightarrow> os);
          mrName' = or_default (map_of mrMap (rv_mr_id visit)) ''N/A'';
          doctorName' = (case rv_doctors visit of Obj d \<Rightarrow> row_name d | _ \<Rightarrow> ''N/A'');
          doctorId' = (case rv_doctors visit of Obj d \<Rightarrow> row_ident d | _ \<Rightarrow> '''');
          medicineSummary = fold medicine_summary_step orders' []
      in \<lparr>entry_id = rv_id visit, mrId = rv_mr_id visit, mrName = mrName',
          doctorId = doctorId', doctor = doctorName', entry_date = rv_date visit,
          status = rv_status visit, medicines = medicineSummary, uniqueRowId = rv_id visit\<rparr>)"

text \<open>The \<^verbatim>\<open>try\<close> block of \<^verbatim>\<open>fetchReports\<close>: the processed rows, or nothing when
  something was thrown.\<close>

definition fetchReports_try ::
  "user_role \<Rightarrow> string \<Rightarrow> ReportQueries \<Rightarrow> ReportEntry list option" where
  "fetchReports_try userRole selectedMr q =
     (let userId = (if userRole \<noteq> Admin then getUser q else None)
      in if userRole \<noteq> Admin \<and> (userId = None \<or> userId = Some []) then None
         else
           (let mrFilter =
                  (if userRole = MR \<and> userId \<noteq> None then userId
                   else if userRole = Admin \<and> selectedMr \<noteq> ''all'' then Some selectedMr
                   else None)
            in case resp_error (reportVisitsQuery q mrFilter) of
                 Some visitsError \<Rightarrow> None
               | None \<Rightarrow>
                   (let visitsData = (case resp_data (reportVisitsQuery q mrFilter) of
                                        None \<Rightarrow> [] | Some vs \<Rightarrow> vs);
                        mrIds = array_from_set (filter (\<lambda>i. i \<noteq> []) (map rv_mr_id visitsData))
                    in case resp_error (reportProfilesQuery q mrIds) of
                         Some mrProfilesError \<Rightarrow> None
                       | None \<Rightarrow>
                           (let mrMap = mrMap_of (resp_data (reportProfilesQuery q mrIds))
                            in Some (map (report_entry mrMap) visitsData)))))"

definition fetchReports :: "user_role \<Rightarrow> string \<Rightarrow> ReportQueries \<Rightarrow> ReportPage \<Rightarrow> ReportPage" where
  "fetchReports userRole selectedMr q s =
     (let s0 = s\<lparr>report_loading := True, report_error := None\<rparr>;
          s1 = (case fetchReports_try userRole selectedMr q of
                  Some processedResult \<Rightarrow> s0\<lparr>processedData := processedResult\<rparr>
                | None \<Rightarrow>
                    s0\<lparr>report_error := Some ''Failed to fetch reports. Please try again.''\<rparr>)
      in s1\<lparr>report_loading := False\<rparr>)"

section \<open>Doctors: search filter\<close>

text \<open>
  \<^verbatim>\<open>filteredDoctors\<close> of \<^verbatim>\<open>DoctorsList.tsx\<close> and of \<^verbatim>\<open>DoctorsManagement.tsx\<close>. A
  doctor's area can be \<^verbatim>\<open>null\<close> in the store (\<^verbatim>\<open>AreaReminderDialog.tsx\<close> asks for the
  rows with \<^verbatim>\<open>area.is.null\<close>).
\<close>

record Doctor =
  doc_id :: string
  doc_name :: string
  specialization :: string
  hospital :: string
  address :: string
  area :: "string option"
  is_verified :: bool

text \<open>\<^verbatim>\<open>toLowerCase\<close> on the letters A to Z; every other character is left as it is.\<close>

definition char_toLowerCase :: "char \<Rightarrow> char" where
  "char_toLowerCase c =
     (let n = (of_char c :: nat) in if 65 \<le> n \<and> n \<le> 90 then char_of (n + 32) else c)"

definition toLowerCase :: "string \<Rightarrow> string" where
  "toLowerCase s = map char_toLowerCase s"

text \<open>\<^verbatim>\<open>s.startsWith(t)\<close> and \<^verbatim>\<open>s.includes(t)\<close>: \<open>t\<close> occurs in \<open>s\<close> at some position.\<close>

fun startsWith :: "string \<Rightarrow> string \<Rightarrow> bool" where
  "startsWith s [] = True"
| "startsWith [] (y # ys) = False"
| "startsWith (x # xs) (y # ys) = (x = y \<and> startsWith xs ys)"

fun includes_str :: "string \<Rightarrow> string \<Rightarrow> bool" where
  "includes_str [] t = (t = [])"
| "includes_str (x # xs) t = (startsWith (x # xs) t \<or> includes_str xs t)"

text \<open>The filter of the MR's doctors list: name, specialization, hospital, address.\<close>

definition filteredDoctors :: "Doctor list \<Rightarrow> string \<Rightarrow> Doctor list" where
  "filteredDoctors doctors searchTerm =
     filter (\<lambda>doctor.
         includes_str (toLowerCase (doc_name doctor)) (toLowerCase searchTerm)
       \<or> includes_str (toLowerCase (specialization doctor)) (toLowerCase searchTerm)
       \<or> includes_str (toLowerCase (hospital doctor)) (toLowerCase searchTerm)
       \<or> includes_str (toLowerCase (address doctor)) (toLowerCase searchTerm))
       doctors"

text \<open>
  \<^verbatim>\<open>Array.prototype.filter\<close> with a callback that may throw: the first exception ends
  the filtering.
\<close>

fun filter_throwing :: "('a \<Rightarrow> string + bool) \<Rightarrow> 'a list \<Rightarrow> string + 'a list" where
  "filter_throwing p [] = Inr []"
| "filter_throwing p (x # xs) =
     (case p x of
        Inl e \<Rightarrow> Inl e
      | Inr keep \<Rightarrow>
          (case filter_throwing p xs of
             Inl e \<Rightarrow> Inl e
           | Inr ys \<Rightarrow> Inr (if keep then x # ys else ys)))"

text \<open>
  The callback of the admin's doctors table. The five tests are joined by \<^verbatim>\<open>||\<close>, so
  the area is read only when the first four fail; \<^verbatim>\<open>doctor.area.toLowerCase()\<close> on an
  area that is \<^verbatim>\<open>null\<close> throws a TypeError.
\<close>

definition admin_doctor_matches :: "string \<Rightarrow> Doctor \<Rightarrow> string + bool" where
  "admin_doctor_matches searchTerm d =
     (if includes_str (toLowerCase (doc_name d)) (toLowerCase searchTerm)
       \<or> includes_str (toLowerCase (specialization d)) (toLowerCase searchTerm)
       \<or> includes_str (toLowerCase (hospital d)) (toLowerCase searchTerm)
       \<or> includes_str (toLowerCase (address d)) (toLowerCase searchTerm)
      then Inr True
      else (case area d of
              None \<Rightarrow> Inl ''TypeError: Cannot read properties of null (reading 'toLowerCase')''
            | Some a \<Rightarrow> Inr (includes_str (toLowerCase a) (toLowerCase searchTerm))))"

text \<open>The filter of the admin's doctors table, which also searches the area: the rows
  kept, or the message of the TypeError thrown.\<close>

definition filteredDoctors_admin :: "Doctor list \<Rightarrow> string \<Rightarrow> string + Doctor list" where
  "filteredDoctors_admin sortedData searchTerm =
     filter_throwing (admin_doctor_matches searchTerm) sortedData"

text \<open>A doctor one of whose searched fields holds the term exactly as it was typed.\<close>

definition holds_term :: "string \<Rightarrow> Doctor \<Rightarrow> bool" where
  "holds_term t d =
     (includes_str (doc_name d) t \<or> includes_str (specialization d) t
      \<or> includes_str (hospital d) t \<or> includes_str (address d) t)"

definition holds_term_admin :: "string \<Rightarrow> Doctor \<Rightarrow> bool" where
  "holds_term_admin t d =
     (holds_term t d \<or> (case area d of None \<Rightarrow> False | Some a \<Rightarrow> includes_str a t))"

definition has_area :: "Doctor \<Rightarrow> bool" where
  "has_area d = (case area d of None \<Rightarrow> False | Some a \<Rightarrow> True)"

definition sample_doctors :: "Doctor list" where
  "sample_doctors =
     [\<lparr>doc_id = ''d1'', doc_name = ''Asha Rao'', specialization = ''Cardiology'',
       hospital = ''Sahyadri'', address = ''Kothrud'', area = Some ''Kothrud'', is_verified = True\<rparr>,
      \<lparr>doc_id = ''d2'', doc_name = ''Ravi'', specialization = ''ENT'',
       hospital = ''Ruby'', address = ''Deccan'', area = Some ''Deccan'', is_verified = True\<rparr>]"

section \<open>Sortable table\<close>


datatype SortDirection = Asc | Desc

text \<open>
  Modelled from the spec: the comparison of the hook \<^verbatim>\<open>useSortableTable\<close>
  (\<^verbatim>\<open>@/hooks/useSortableTable\<close>), whose source is not at hand; only its callers are.
  ``Sorted ascending or descending by that column's value'': two records compare by
  the values of the column, and the descending comparison is the ascending one
  reversed. A record is the function from its columns to their values.
\<close>

definition compare_column :: "'k \<Rightarrow> SortDirection \<Rightarrow> ('k \<Rightarrow> 'v::linorder) \<Rightarrow> ('k \<Rightarrow> 'v) \<Rightarrow> int" where
  "compare_column col dir a b =
     (let c = (if a col < b col then - 1 else if b col < a col then 1 else 0)
      in case dir of Asc \<Rightarrow> c | Desc \<Rightarrow> - c)"

text \<open>
  Modelled from the spec: the sorted view of \<^verbatim>\<open>useSortableTable\<close>, ``given an array of
  records and a column key, returns a new array sorted ascending or descending by that
  column's value''; ties keep their order, as in the runtime's stable sort.
\<close>

definition sortData :: "'k \<Rightarrow> SortDirection \<Rightarrow> ('k \<Rightarrow> 'v::linorder) list \<Rightarrow> ('k \<Rightarrow> 'v) list" where
  "sortData col dir data' = array_sort (compare_column col dir) data'"

chapter \<open>Properties\<close>

section \<open>Pagination: properties\<close>

lemma array_slice_nonneg:
  "0 \<le> s \<Longrightarrow> 0 \<le> n \<Longrightarrow> array_slice xs s (s + n) = take (nat n) (drop (nat s) xs)"
proof -
  assume s: "0 \<le> s" and n: "0 \<le> n"
  let ?len = "int (length xs)"
  consider (beyond) "?len \<le> s" | (inside) "s < ?len" "s + n \<le> ?len"
    | (over) "s < ?len" "?len < s + n"
    by linarith
  then show ?thesis
  proof cases
    case beyond
    then have "length xs \<le> nat s" by simp
    with beyond s n show ?thesis
      by (simp add: array_slice_def Let_def min_def)
  next
    case inside
    with s n show ?thesis
      by (simp add: array_slice_def Let_def min_def)
  next
    case over
    then have "length xs - nat s \<le> nat n" by linarith
    moreover have "nat (?len - s) = length xs - nat s" using s by linarith
    ultimately show ?thesis using over s n
      by (simp add: array_slice_def Let_def min_def)
  qed
qed

lemma paginatedData_take_drop:
  assumes "1 \<le> k" "0 < p"
  shows "paginatedData xs k p = take (nat p) (drop (nat (k - 1) * nat p) xs)"
proof -
  have "0 \<le> (k - 1) * p" using assms by simp
  moreover have "nat ((k - 1) * p) = nat (k - 1) * nat p"
    using assms by (simp add: nat_mult_distrib)
  ultimately show ?thesis
    unfolding paginatedData_def Let_def using assms
    by (simp add: array_slice_nonneg)
qed

lemma concat_pages_nat:
  "concat (map (\<lambda>j. take q (drop (j * q) xs)) [0..<m]) = take (m * q) xs"
proof (induction m)
  case 0
  show ?case by simp
next
  case (Suc m)
  have "take (m * q) xs @ take q (drop (m * q) xs) = take (m * q + q) xs"
    by (simp add: take_add)
  with Suc show ?case by (simp add: add.commute)
qed

lemma upto_as_nat: "0 \<le> m \<Longrightarrow> [1..m] = map (\<lambda>j. int (Suc j)) [0..<nat m]"
proof (induction "nat m" arbitrary: m)
  case 0
  then show ?case by simp
next
  case (Suc n)
  then have m: "m = int n + 1" by linarith
  have "[1..int n + 1] = [1..int n] @ [int n + 1]"
    by (simp add: upto_rec2)
  moreover have "[1..int n] = map (\<lambda>j. int (Suc j)) [0..<nat (int n)]"
    using Suc.hyps(1)[of "int n"] by simp
  moreover have "nat (int n + 1) = Suc n" by simp
  ultimately show ?case using m by simp
qed

lemma totalPages_covers:
  assumes "0 < p"
  shows "0 \<le> totalPages n p" and "int n \<le> totalPages n p * p"
proof -
  let ?a = "- int n"
  have eq: "?a div p * p + ?a mod p = ?a" by (rule div_mult_mod_eq)
  have md: "0 \<le> ?a mod p" using assms by simp
  have le: "?a div p * p \<le> ?a" using eq md by linarith
  have "?a div p * p \<le> 0" using le by linarith
  then have "?a div p \<le> 0" using assms by (simp add: mult_le_0_iff)
  then show "0 \<le> totalPages n p" by (simp add: totalPages_def)
  show "int n \<le> totalPages n p * p" using le by (simp add: totalPages_def)
qed

text \<open>
  C1: for a page size of 10, 30 or 100 and a page number of at least 1, the page
  slice holds at most one page size of records, and the slices of pages 1 to
  ceil(n / p), concatenated in order, are exactly the input array.
\<close>

theorem paginatedData_pages:
  assumes "p \<in> {10, 30, 100}" and "1 \<le> k"
  shows "length (paginatedData xs k p) \<le> nat p \<and>
         concat (map (\<lambda>j. paginatedData xs j p) [1..totalPages (length xs) p]) = xs"
proof -
  have p: "0 < p" using assms(1) by auto
  let ?m = "nat (totalPages (length xs) p)"
  have len: "length (paginatedData xs k p) \<le> nat p"
    using assms(2) p by (simp add: paginatedData_take_drop)
  have "concat (map (\<lambda>j. paginatedData xs j p) [1..totalPages (length xs) p])
        = concat (map (\<lambda>j. paginatedData xs (int (Suc j)) p) [0..<?m])"
    using totalPages_covers(1)[OF p] by (simp add: upto_as_nat comp_def)
  also have "\<dots> = concat (map (\<lambda>j. take (nat p) (drop (j * nat p) xs)) [0..<?m])"
    using p by (simp add: paginatedData_take_drop)
  also have "\<dots> = take (?m * nat p) xs" by (rule concat_pages_nat)
  also have "\<dots> = xs"
  proof -
    have "int (?m * nat p) = totalPages (length xs) p * p"
      using totalPages_covers(1)[OF p, of "length xs"] p by simp
    then have "int (length xs) \<le> int (?m * nat p)"
      using totalPages_covers(2)[OF p, of "length xs"] by simp
    then have "length xs \<le> ?m * nat p" by linarith
    then show ?thesis by simp
  qed
  finally show ?thesis using len by simp
qed

theorem paginatedData_pages_witness:
  "(10::int) \<in> {10, 30, 100} \<and> (1::int) \<le> 2 \<and>
   length (paginatedData [1, 2, 3, 4, 5, 6, 7, 8, 9, 10, 11, 12 :: nat] 2 10) \<le> nat 10 \<and>
   concat (map (\<lambda>j. paginatedData [1, 2, 3, 4, 5, 6, 7, 8, 9, 10, 11, 12 :: nat] j 10)
     [1..totalPages (length [1, 2, 3, 4, 5, 6, 7, 8, 9, 10, 11, 12 :: nat]) 10])
     = [1, 2, 3, 4, 5, 6, 7, 8, 9, 10, 11, 12]"
  using paginatedData_pages [of 10 2 "[1, 2, 3, 4, 5, 6, 7, 8, 9, 10, 11, 12 :: nat]"]
  by simp

subsection \<open>Decimal strings\<close>

lemma digit_table:
  "list_all (\<lambda>k. is_digit (digit_chars ! k) \<and> digit_val (digit_chars ! k) = k) [0..<10]"
  by code_simp

lemma digit_chars_nth: "n < 10 \<Longrightarrow> is_digit (digit_chars ! n) \<and> digit_val (digit_chars ! n) = n"
proof -
  assume "n < 10"
  then have "n \<in> set [0..<10]" by simp
  with digit_table show ?thesis
    unfolding list_all_iff by blast
qed

lemma number_toString_small: "n < 10 \<Longrightarrow> number_toString n = [digit_chars ! n]"
  by (subst number_toString.simps) simp

lemma number_toString_large:
  "\<not> n < 10 \<Longrightarrow> number_toString n = number_toString (n div 10) @ [digit_chars ! (n mod 10)]"
  by (subst number_toString.simps) simp

lemma number_toString_digits: "list_all is_digit (number_toString n) \<and> number_toString n \<noteq> []"
proof (induction n rule: number_toString.induct)
  case (1 n)
  show ?case
  proof (cases "n < 10")
    case True
    then show ?thesis
      using digit_chars_nth[of n] by (simp add: number_toString_small)
  next
    case False
    then have "list_all is_digit (number_toString (n div 10))" using 1 by simp
    moreover have "is_digit (digit_chars ! (n mod 10))"
      using digit_chars_nth[of "n mod 10"] by simp
    ultimately show ?thesis
      using False by (simp add: number_toString_large)
  qed
qed

lemma digits_val_snoc: "digits_val (ds @ [c]) = 10 * digits_val ds + digit_val c"
  by (simp add: digits_val_def)

lemma digits_val_number_toString: "digits_val (number_toString n) = n"
proof (induction n rule: number_toString.induct)
  case (1 n)
  show ?case
  proof (cases "n < 10")
    case True
    then show ?thesis
      using digit_chars_nth[of n]
      by (simp add: number_toString_small digits_val_def)
  next
    case False
    then have "digits_val (number_toString (n div 10)) = n div 10" using 1 by simp
    moreover have "digit_val (digit_chars ! (n mod 10)) = n mod 10"
      using digit_chars_nth[of "n mod 10"] by simp
    ultimately show ?thesis
      using False by (simp add: number_toString_large digits_val_snoc)
  qed
qed

lemma is_digit_cases:
  "is_digit c \<Longrightarrow> \<not> is_space c \<and> c \<noteq> CHR ''-'' \<and> c \<noteq> CHR ''+'' \<and> c \<noteq> CHR ''x''
     \<and> c \<noteq> CHR ''X'' \<and> c \<noteq> CHR '' ''"
  by (auto simp: is_digit_def digit_chars_def is_space_def)

lemma takeWhile_all: "list_all P xs \<Longrightarrow> takeWhile P xs = xs"
  by (induction xs) auto

lemma parseInt_digits:
  assumes "list_all is_digit s" and "s \<noteq> []"
  shows "parseInt s = Some (int (digits_val s))"
proof -
  obtain c r where s: "s = c # r" using assms(2) by (cases s) auto
  have c: "is_digit c" using assms(1) s by simp
  note cc = is_digit_cases[OF c]
  have s1: "dropWhile is_space s = s" using s cc by simp
  have nohex: "take 2 s \<noteq> ''0x'' \<and> take 2 s \<noteq> ''0X''"
  proof (cases r)
    case Nil
    then show ?thesis using s by simp
  next
    case (Cons d r')
    then have "is_digit d" using assms(1) s by simp
    then show ?thesis using s Cons is_digit_cases[of d] by auto
  qed
  have tw: "takeWhile is_digit s = s" using assms(1) by (rule takeWhile_all)
  have sgn: "(case s of c # x \<Rightarrow> if c = CHR ''-'' then - 1 else (1::int) | [] \<Rightarrow> 1) = 1"
    using s cc by simp
  have s2: "(case s of c # r \<Rightarrow> if c = CHR ''-'' \<or> c = CHR ''+'' then r else s | [] \<Rightarrow> s) = s"
    using s cc by simp
  show ?thesis
    unfolding parseInt_def Let_def s1 sgn s2 tw
    using nohex assms(2) by simp
qed

lemma parseInt_number_toString: "parseInt (number_toString n) = Some (int n)"
  using number_toString_digits[of n]
  by (simp add: parseInt_digits digits_val_number_toString)

subsection \<open>Splitting a label\<close>

lemma split_on_none: "c \<notin> set v \<Longrightarrow> split_on c v = [v]"
  by (induction v) auto

lemma split_on_first: "c \<notin> set u \<Longrightarrow> split_on c (u @ c # v) = u # split_on c v"
  by (induction u) auto

lemma month_short_no_space: "CHR '' '' \<notin> set (month_short m)"
  by (cases m) simp_all

lemma monthMap_month_short: "map_of monthMap (month_short m) = Some (month_index m)"
  by (cases m) (simp_all add: monthMap_def)

lemma number_toString_no_space: "CHR '' '' \<notin> set (number_toString n)"
proof
  assume "CHR '' '' \<in> set (number_toString n)"
  moreover have "list_all is_digit (number_toString n)" using number_toString_digits by simp
  ultimately have "is_digit CHR '' ''" by (auto simp: list_all_iff)
  then show False using is_digit_cases by blast
qed

lemma split_label:
  "split_on CHR '' '' (toLocaleString_month_year en_US_format (LocalDate y m))
     = [month_short m, number_toString y]"
  using split_on_first[OF month_short_no_space, of m "number_toString y"]
        split_on_none[OF number_toString_no_space, of y]
  by (simp add: en_US_format_def)

lemma trend_time_label:
  "trend_time (toLocaleString_month_year en_US_format (LocalDate y m))
     = Some (12 * js_full_year (int y) + int (month_index m))"
  unfolding trend_time_def Let_def split_label
  by (simp add: nth_opt_def parseInt_number_toString monthMap_month_short first_of_month_time_def)

lemma split_invalid: "split_on CHR '' '' ''Invalid Date'' = [''Invalid'', ''Date'']"
  by simp

lemma month_index_inj: "month_index m = month_index m' \<Longrightarrow> m = m'"
  by (cases m; cases m') simp_all

lemma month_short_not_invalid: "month_short m \<noteq> ''Invalid''"
  by (cases m) simp_all

lemma label_inj: "inj (toLocaleString_month_year en_US_format)"
proof (rule injI)
  fix d d'
  assume eq: "toLocaleString_month_year en_US_format d = toLocaleString_month_year en_US_format d'"
  then have sp: "split_on CHR '' '' (toLocaleString_month_year en_US_format d)
               = split_on CHR '' '' (toLocaleString_month_year en_US_format d')" by simp
  show "d = d'"
  proof (cases d; cases d')
    fix y m y' m' assume d: "d = LocalDate y m" and d': "d' = LocalDate y' m'"
    from sp have "month_short m = month_short m'" and n: "number_toString y = number_toString y'"
      unfolding d d' split_label by simp_all
    then have "map_of monthMap (month_short m) = map_of monthMap (month_short m')" by simp
    then have "m = m'" using month_index_inj by (simp add: monthMap_month_short)
    moreover have "y = y'" using n digits_val_number_toString by metis
    ultimately show ?thesis using d d' by simp
  next
    fix y m assume d: "d = LocalDate y m" and d': "d' = InvalidDate"
    from sp show ?thesis unfolding d d' split_label
      using month_short_not_invalid[of m] by simp
  next
    fix y m assume d': "d' = LocalDate y m" and d: "d = InvalidDate"
    from sp show ?thesis unfolding d d' split_label
      using month_short_not_invalid[of m] by simp
  qed simp
qed

subsection \<open>Sorting with a comparator\<close>

lemma set_insort_cmp: "set (insort_cmp cmp x ys) = insert x (set ys)"
  by (induction ys) auto

lemma set_array_sort: "set (array_sort cmp xs) = set xs"
  by (induction xs) (simp_all add: array_sort_def set_insort_cmp)

lemma insort_cmp_map:
  "(\<And>y. y \<in> set ys \<Longrightarrow> (cmp (f x) (f y) \<le> 0) = (k x \<le> k y))
     \<Longrightarrow> insort_cmp cmp (f x) (map f ys) = map f (insort_key k x ys)"
  by (induction ys) simp_all

lemma array_sort_map:
  "(\<And>x y. x \<in> set xs \<Longrightarrow> y \<in> set xs \<Longrightarrow> (cmp (f x) (f y) \<le> 0) = (k x \<le> k y))
     \<Longrightarrow> array_sort cmp (map f xs) = map f (sort_key k xs)"
proof (induction xs)
  case Nil
  show ?case by (simp add: array_sort_def)
next
  case (Cons x xs)
  have ih: "array_sort cmp (map f xs) = map f (sort_key k xs)"
    using Cons by simp
  have "array_sort cmp (map f (x # xs)) = insort_cmp cmp (f x) (array_sort cmp (map f xs))"
    by (simp add: array_sort_def)
  also have "\<dots> = insort_cmp cmp (f x) (map f (sort_key k xs))"
    by (simp only: ih)
  also have "\<dots> = map f (insort_key k x (sort_key k xs))"
    by (rule insort_cmp_map) (use Cons.prems in simp)
  finally show ?case by simp
qed

subsection \<open>Monthly buckets\<close>

lemma map_of_monthly_step:
  "map_of (monthly_step lf v md) =
     (map_of md)(toLocaleString_month_year lf (date v) \<mapsto>
        bump_counts (case map_of md (toLocaleString_month_year lf (date v)) of
                       None \<Rightarrow> zero_counts | Some c \<Rightarrow> c) 1)"
  unfolding monthly_step_def Let_def
  by (rule ext)
     (simp add: map_of_map_entry update_conv' bump_counts_def zero_counts_def
           split: option.splits)

lemma keys_monthly_step:
  "fst ` set (monthly_step lf v md) = insert (toLocaleString_month_year lf (date v)) (fst ` set md)"
  unfolding monthly_step_def Let_def
  by (auto simp: dom_map_entry dom_update map_of_eq_None_iff)

lemma distinct_monthly_step:
  "distinct (map fst md) \<Longrightarrow> distinct (map fst (monthly_step lf v md))"
  unfolding monthly_step_def Let_def
  by (simp add: distinct_map_entry distinct_update)

lemma keys_fold_monthly:
  "fst ` set (fold (monthly_step lf) vs md)
     = (\<lambda>v. toLocaleString_month_year lf (date v)) ` set vs \<union> fst ` set md"
  by (induction vs arbitrary: md) (auto simp: keys_monthly_step)

lemma distinct_fold_monthly:
  "distinct (map fst md) \<Longrightarrow> distinct (map fst (fold (monthly_step lf) vs md))"
  by (induction vs arbitrary: md) (simp_all add: distinct_monthly_step)

lemma bump_counts_add: "bump_counts (bump_counts c a) b = bump_counts c (a + b)"
  by (simp add: bump_counts_def)

lemma map_of_fold_monthly:
  "map_of (fold (monthly_step lf) vs md) k =
     (let n = length (filter (\<lambda>v. toLocaleString_month_year lf (date v) = k) vs)
      in case map_of md k of
           None \<Rightarrow> (if n = 0 then None else Some (bump_counts zero_counts n))
         | Some c \<Rightarrow> Some (bump_counts c n))"
proof (induction vs arbitrary: md)
  case Nil
  show ?case by (simp add: bump_counts_def split: option.splits)
next
  case (Cons v vs)
  show ?case
    by (simp add: Cons.IH map_of_monthly_step Let_def bump_counts_add split: option.splits)
qed

lemma trend_items_total:
  "set ks \<subseteq> fst ` set md \<Longrightarrow>
   trend_items md ks =
     Inr (map (\<lambda>k. \<lparr>month = k, visits = month_visits (the (map_of md k)),
                     orders = month_orders (the (map_of md k))\<rparr>) ks)"
proof (induction ks)
  case Nil
  show ?case by simp
next
  case (Cons k ks)
  then obtain c where "map_of md k = Some c"
    by (cases "map_of md k") (auto simp: map_of_eq_None_iff)
  then show ?case using Cons by simp
qed

lemma mset_insort_cmp: "mset (insort_cmp cmp x ys) = add_mset x (mset ys)"
  by (induction ys) simp_all

lemma mset_array_sort: "mset (array_sort cmp xs) = mset xs"
  by (induction xs) (simp_all add: array_sort_def mset_insort_cmp)

lemma visitTrendArray_rows:
  "visitTrendArray lf allVisits = visitTrendArray lf (Some (fetched_rows allVisits))"
  by (cases allVisits) (simp_all add: visitTrendArray_def monthlyData_of_def fetched_rows_def)

lemma visitTrendArray_items:
  "visitTrendArray lf (Some vs) =
     Inr (array_sort trend_cmp
       (map (\<lambda>k. \<lparr>month = k,
                   visits = length (filter (\<lambda>v. toLocaleString_month_year lf (date v) = k) vs),
                   orders = length (filter (\<lambda>v. toLocaleString_month_year lf (date v) = k) vs)\<rparr>)
            (map fst (fold (monthly_step lf) vs []))))"
proof -
  let ?md = "fold (monthly_step lf) vs []"
  let ?L = "\<lambda>v. toLocaleString_month_year lf (date v)"
  have items: "trend_items ?md (map fst ?md) =
     Inr (map (\<lambda>k. \<lparr>month = k, visits = month_visits (the (map_of ?md k)),
                     orders = month_orders (the (map_of ?md k))\<rparr>) (map fst ?md))"
    by (rule trend_items_total) simp
  have "\<And>k. k \<in> set (map fst ?md) \<Longrightarrow>
          map_of ?md k = Some (bump_counts zero_counts (length (filter (\<lambda>v. ?L v = k) vs)))"
  proof -
    fix k assume "k \<in> set (map fst ?md)"
    then have "k \<in> ?L ` set vs" using keys_fold_monthly[of lf vs "[]"] by simp
    then have "filter (\<lambda>v. ?L v = k) vs \<noteq> []" by (auto simp: filter_empty_conv)
    then show "map_of ?md k = Some (bump_counts zero_counts (length (filter (\<lambda>v. ?L v = k) vs)))"
      by (simp add: map_of_fold_monthly Let_def)
  qed
  then have eq: "map (\<lambda>k. \<lparr>month = k, visits = month_visits (the (map_of ?md k)),
                     orders = month_orders (the (map_of ?md k))\<rparr>) (map fst ?md)
           = map (\<lambda>k. \<lparr>month = k, visits = length (filter (\<lambda>v. ?L v = k) vs),
                   orders = length (filter (\<lambda>v. ?L v = k) vs)\<rparr>) (map fst ?md)"
    by (intro map_cong refl) (simp add: bump_counts_def zero_counts_def)
  show ?thesis
    by (simp only: visitTrendArray_def monthlyData_of_def Let_def option.case items sum.case eq)
qed

subsection \<open>Every fetched row is counted once\<close>

lemma sum_list_indicator:
  "distinct ks \<Longrightarrow> a \<in> set ks \<Longrightarrow> (\<Sum>k\<leftarrow>ks. if a = k then 1 else (0::nat)) = 1"
proof (induction ks)
  case Nil
  then show ?case by simp
next
  case (Cons k ks)
  show ?case
  proof (cases "a = k")
    case True
    then have "a \<notin> set ks" using Cons.prems by simp
    then have "(\<Sum>k\<leftarrow>ks. if a = k then 1 else (0::nat)) = 0"
      by (induction ks) auto
    then show ?thesis using True by simp
  next
    case False
    then show ?thesis using Cons by simp
  qed
qed

lemma sum_list_label_counts:
  "distinct ks \<Longrightarrow> f ` set vs \<subseteq> set ks \<Longrightarrow>
   (\<Sum>k\<leftarrow>ks. length (filter (\<lambda>v. f v = k) vs)) = length vs"
proof (induction vs)
  case Nil
  show ?case by simp
next
  case (Cons v vs)
  have split: "\<And>k. length (filter (\<lambda>w. f w = k) (v # vs))
                  = (if f v = k then 1 else 0) + length (filter (\<lambda>w. f w = k) vs)"
    by simp
  have "(\<Sum>k\<leftarrow>ks. length (filter (\<lambda>w. f w = k) (v # vs)))
        = (\<Sum>k\<leftarrow>ks. if f v = k then 1 else 0) + (\<Sum>k\<leftarrow>ks. length (filter (\<lambda>w. f w = k) vs))"
    unfolding split by (rule sum_list_addf)
  moreover have "(\<Sum>k\<leftarrow>ks. if f v = k then 1 else (0::nat)) = 1"
    using Cons.prems by (intro sum_list_indicator) simp_all
  moreover have "(\<Sum>k\<leftarrow>ks. length (filter (\<lambda>w. f w = k) vs)) = length vs"
    using Cons by simp
  ultimately show ?case by simp
qed

text \<open>
  C10: whatever the locale, the trend computation returns a series in which every
  bucket's orders count is its visits count, and both are the number of fetched rows
  that carry the bucket's month label: there is one bucket for each label that occurs,
  so every fetched row is counted in exactly one bucket, once as a visit and once as
  an order, and the visits of all buckets, like the orders, add up to the number of
  fetched rows.
\<close>

theorem visitTrend_orders_eq_visits:
  "\<exists>arr. visitTrendArray lf allVisits = Inr arr
     \<and> map orders arr = map visits arr
     \<and> map visits arr
         = map (\<lambda>b. length (filter (\<lambda>v. toLocaleString_month_year lf (date v) = month b)
                                 (fetched_rows allVisits))) arr
     \<and> distinct (map month arr)
     \<and> set (map month arr)
         = (\<lambda>v. toLocaleString_month_year lf (date v)) ` set (fetched_rows allVisits)
     \<and> sum_list (map visits arr) = length (fetched_rows allVisits)
     \<and> sum_list (map orders arr) = length (fetched_rows allVisits)"
proof -
  define vs where "vs = fetched_rows allVisits"
  let ?L = "\<lambda>v. toLocaleString_month_year lf (date v)"
  let ?keys = "map fst (fold (monthly_step lf) vs [])"
  let ?item = "\<lambda>k. \<lparr>month = k, visits = length (filter (\<lambda>v. ?L v = k) vs),
                   orders = length (filter (\<lambda>v. ?L v = k) vs)\<rparr>"
  define arr where "arr = array_sort trend_cmp (map ?item ?keys)"
  have res: "visitTrendArray lf allVisits = Inr arr"
    using visitTrendArray_rows[of lf allVisits] visitTrendArray_items[of lf vs]
    by (simp add: vs_def arr_def)
  have keys_set: "set ?keys = ?L ` set vs"
    using keys_fold_monthly[of lf vs "[]"] by simp
  have keys_dist: "distinct ?keys"
    using distinct_fold_monthly[of "[]" lf vs] by simp
  have perm: "mset arr = mset (map ?item ?keys)"
    unfolding arr_def by (rule mset_array_sort)
  have elems: "\<And>b. b \<in> set arr \<Longrightarrow> \<exists>k. b = ?item k"
    unfolding arr_def set_array_sort by auto
  have a: "map orders arr = map visits arr"
  proof (rule map_cong[OF refl])
    fix b assume "b \<in> set arr"
    then obtain k where "b = ?item k" using elems by blast
    then show "orders b = visits b" by simp
  qed
  have b: "map visits arr = map (\<lambda>b. length (filter (\<lambda>v. ?L v = month b) vs)) arr"
  proof (rule map_cong[OF refl])
    fix b assume "b \<in> set arr"
    then obtain k where "b = ?item k" using elems by blast
    then show "visits b = length (filter (\<lambda>v. ?L v = month b) vs)" by simp
  qed
  have "mset (map month arr) = mset (map month (map ?item ?keys))"
    using perm by (simp only: mset_map)
  moreover have "map month (map ?item ?keys) = ?keys"
    by (simp add: comp_def)
  ultimately have months: "mset (map month arr) = mset ?keys" by (simp only:)
  have c: "distinct (map month arr)"
    using mset_eq_imp_distinct_iff[OF months] keys_dist by (simp only:)
  have d: "set (map month arr) = ?L ` set vs"
    using mset_eq_setD[OF months] keys_set by (simp only:)
  have "mset (map visits arr) = mset (map visits (map ?item ?keys))"
    using perm by (simp only: mset_map)
  then have "sum_mset (mset (map visits arr)) = sum_mset (mset (map visits (map ?item ?keys)))"
    by (simp only:)
  then have "sum_list (map visits arr) = sum_list (map visits (map ?item ?keys))"
    by (simp only: sum_mset_sum_list)
  also have "\<dots> = (\<Sum>k\<leftarrow>?keys. length (filter (\<lambda>v. ?L v = k) vs))"
    by (simp add: comp_def)
  also have "\<dots> = length vs"
    by (rule sum_list_label_counts[OF keys_dist]) (simp only: keys_set subset_refl)
  finally have e: "sum_list (map visits arr) = length vs" .
  have f: "sum_list (map orders arr) = length vs"
    by (simp only: a e)
  show ?thesis
    unfolding vs_def[symmetric]
    by (intro exI[of _ arr] conjI) (fact res a b c d e f)+
qed

subsection \<open>Chronological order of the buckets\<close>

lemma month_index_less: "month_index m < 12"
  by (cases m) simp_all

lemma chrono_key_less:
  "chrono_key (LocalDate y m) < chrono_key (LocalDate y' m')
     \<longleftrightarrow> chrono_before (LocalDate y m) (LocalDate y' m')"
  using month_index_less[of m] month_index_less[of m']
  by (auto simp: chrono_key_def)

lemma trend_cmp_label:
  assumes "100 \<le> y" "100 \<le> y'"
  shows "(trend_cmp (month_bucket en_US_format vs (LocalDate y m)) (month_bucket en_US_format vs (LocalDate y' m')) \<le> 0)
       = (chrono_key (LocalDate y m) \<le> chrono_key (LocalDate y' m'))"
proof -
  have time: "\<And>z n. 100 \<le> z \<Longrightarrow>
      trend_time (month (month_bucket en_US_format vs (LocalDate z n))) = Some (12 * int z + int (month_index n))"
    by (simp add: month_bucket_def trend_time_label js_full_year_def
             del: toLocaleString_month_year.simps)
  show ?thesis
    by (simp add: trend_cmp_def time[OF assms(1)] time[OF assms(2)] chrono_key_def)
qed

lemma in_window_valid:
  assumes "in_trailing_window (LocalDate y0 m0) v" "100 \<le> y0"
  shows "\<exists>y m. date v = LocalDate y m \<and> 100 \<le> y"
proof (cases "date v")
  case InvalidDate
  then show ?thesis using assms by (simp add: in_trailing_window_def)
next
  case (LocalDate y m)
  then show ?thesis using assms by (auto simp: in_trailing_window_def)
qed

text \<open>
  In a runtime whose locale writes the months as \<open>monthMap\<close> spells them (American
  English), the series of visits dated in the trailing window has one bucket for each
  calendar month that has a visit, every bucket counts the fetched visits of its
  month, and the buckets are in ascending calendar order.
\<close>

lemma visitTrend_monthly_buckets_en_US:
  assumes window: "\<forall>v\<in>set allVisits. in_trailing_window (LocalDate y0 m0) v"
      and y0: "100 \<le> y0"
  shows "\<exists>ds. visitTrendArray en_US_format (Some allVisits) = Inr (map (month_bucket en_US_format allVisits) ds)
            \<and> distinct ds \<and> set ds = date ` set allVisits
            \<and> sorted_wrt chrono_before ds"
proof -
  let ?L = "toLocaleString_month_year en_US_format"
  let ?keys = "map fst (fold (monthly_step en_US_format) allVisits [])"
  define ds0 where "ds0 = map (the_inv ?L) ?keys"
  have valid: "\<And>v. v \<in> set allVisits \<Longrightarrow> \<exists>y m. date v = LocalDate y m \<and> 100 \<le> y"
    using window y0 in_window_valid by blast
  have keys_set: "set ?keys = (\<lambda>v. ?L (date v)) ` set allVisits"
    using keys_fold_monthly[of en_US_format allVisits "[]"] by simp
  have keys_dist: "distinct ?keys"
    using distinct_fold_monthly[of "[]" en_US_format allVisits] by simp
  have relabel: "\<And>k. k \<in> set ?keys \<Longrightarrow> ?L (the_inv ?L k) = k"
    using keys_set by (auto simp: the_inv_f_f[OF label_inj])
  have keys_eq: "?keys = map ?L ds0"
    unfolding ds0_def by (simp add: map_idI relabel)
  have "set ds0 = the_inv ?L ` set ?keys"
    unfolding ds0_def by (rule set_map)
  also have "\<dots> = the_inv ?L ` ((\<lambda>v. ?L (date v)) ` set allVisits)"
    by (simp only: keys_set)
  also have "\<dots> = date ` set allVisits"
    by (simp add: image_image the_inv_f_f[OF label_inj])
  finally have ds0_set: "set ds0 = date ` set allVisits" .
  have ds0_dist: "distinct ds0"
    using keys_dist unfolding keys_eq by (simp add: distinct_map)
  have count: "\<And>d. length (filter (\<lambda>v. ?L (date v) = ?L d) allVisits)
                   = length (filter (\<lambda>v. date v = d) allVisits)"
    using label_inj by (simp add: inj_eq)
  have items: "map (\<lambda>k. \<lparr>month = k,
                   visits = length (filter (\<lambda>v. ?L (date v) = k) allVisits),
                   orders = length (filter (\<lambda>v. ?L (date v) = k) allVisits)\<rparr>) ?keys
             = map (month_bucket en_US_format allVisits) ds0"
    unfolding keys_eq by (simp add: month_bucket_def count)
  have cmp: "\<And>a b. a \<in> set ds0 \<Longrightarrow> b \<in> set ds0 \<Longrightarrow>
      (trend_cmp (month_bucket en_US_format allVisits a) (month_bucket en_US_format allVisits b) \<le> 0)
        = (chrono_key a \<le> chrono_key b)"
  proof -
    fix a b assume "a \<in> set ds0" "b \<in> set ds0"
    then obtain y m y' m' where "a = LocalDate y m" "100 \<le> y" "b = LocalDate y' m'" "100 \<le> y'"
      using valid ds0_set by (metis (no_types, lifting) image_iff)
    then show "(trend_cmp (month_bucket en_US_format allVisits a) (month_bucket en_US_format allVisits b) \<le> 0)
        = (chrono_key a \<le> chrono_key b)"
      using trend_cmp_label by simp
  qed
  let ?ds = "sort_key chrono_key ds0"
  have res: "visitTrendArray en_US_format (Some allVisits) = Inr (map (month_bucket en_US_format allVisits) ?ds)"
    unfolding visitTrendArray_items items
    using array_sort_map[of ds0 trend_cmp "month_bucket en_US_format allVisits" chrono_key] cmp by simp
  have key_inj: "inj_on chrono_key (set ds0)"
  proof (rule inj_onI)
    fix a b assume a: "a \<in> set ds0" and b: "b \<in> set ds0" and eq: "chrono_key a = chrono_key b"
    obtain y m y' m' where ab: "a = LocalDate y m" "b = LocalDate y' m'"
      using valid ds0_set a b by (metis (no_types, lifting) image_iff)
    have lt: "month_index m < 12" "month_index m' < 12" by (rule month_index_less)+
    have e: "12 * int y + int (month_index m) = 12 * int y' + int (month_index m')"
      using eq ab by (simp add: chrono_key_def)
    have yy: "y = y'" using lt e by linarith
    have "month_index m = month_index m'" using e yy by simp
    with yy have "y = y'" "month_index m = month_index m'" by simp_all
    then show "a = b" using ab month_index_inj by simp
  qed
  have "sorted (map chrono_key ?ds)" by (rule sorted_sort_key)
  moreover have "distinct (map chrono_key ?ds)"
    using key_inj ds0_dist by (simp add: distinct_map)
  ultimately have "sorted_wrt (<) (map chrono_key ?ds)"
    by (simp add: strict_sorted_iff)
  then have "sorted_wrt (\<lambda>a b. chrono_key a < chrono_key b) ?ds"
    by (simp add: sorted_wrt_map)
  moreover have "\<And>a b. a \<in> set ?ds \<Longrightarrow> b \<in> set ?ds \<Longrightarrow> chrono_key a < chrono_key b
       \<Longrightarrow> chrono_before a b"
  proof -
    fix a b assume a: "a \<in> set ?ds" and b: "b \<in> set ?ds" and lt: "chrono_key a < chrono_key b"
    obtain y m y' m' where ab: "a = LocalDate y m" "b = LocalDate y' m'"
      using valid ds0_set a b by (metis (no_types, lifting) image_iff set_sort)
    then show "chrono_before a b" using lt chrono_key_less by simp
  qed
  ultimately have "sorted_wrt chrono_before ?ds"
    by (rule sorted_wrt_mono_rel[rotated]) 
  with res ds0_dist ds0_set show ?thesis
    by (intro exI[of _ ?ds]) simp
qed

subsection \<open>Consistent comparators\<close>

lemma consistent_comparator_diff:
  fixes k :: "'a \<Rightarrow> int"
  assumes "\<And>a b. a \<in> set xs \<Longrightarrow> b \<in> set xs \<Longrightarrow> cmp a b = k a - k b"
  shows "consistent_comparator cmp xs"
  unfolding consistent_comparator_def list_all_iff
  using assms by auto

lemma trend_cmp_consistent_en_US:
  assumes "\<And>d. d \<in> set ds \<Longrightarrow> \<exists>y m. d = LocalDate y m \<and> 100 \<le> y"
  shows "consistent_comparator trend_cmp (map (month_bucket en_US_format vs) ds)"
proof (rule consistent_comparator_diff[where k = "\<lambda>b. the (trend_time (month b))"])
  fix a b
  assume "a \<in> set (map (month_bucket en_US_format vs) ds)"
     and "b \<in> set (map (month_bucket en_US_format vs) ds)"
  then obtain da db where da: "da \<in> set ds" "a = month_bucket en_US_format vs da"
      and db: "db \<in> set ds" "b = month_bucket en_US_format vs db"
    by auto
  obtain y m where ym: "da = LocalDate y m" "100 \<le> y" using assms[OF da(1)] by blast
  obtain y' m' where ym': "db = LocalDate y' m'" "100 \<le> y'" using assms[OF db(1)] by blast
  have a: "a = month_bucket en_US_format vs (LocalDate y m)" "100 \<le> y"
    using da ym by simp_all
  have b: "b = month_bucket en_US_format vs (LocalDate y' m')" "100 \<le> y'"
    using db ym' by simp_all
  have time: "\<And>z n. 100 \<le> z \<Longrightarrow>
      trend_time (month (month_bucket en_US_format vs (LocalDate z n)))
        = Some (12 * int z + int (month_index n))"
    by (simp add: month_bucket_def trend_time_label js_full_year_def
             del: toLocaleString_month_year.simps)
  show "trend_cmp a b = the (trend_time (month a)) - the (trend_time (month b))"
    unfolding a(1) b(1) by (simp add: trend_cmp_def time[OF a(2)] time[OF b(2)])
qed

subsection \<open>A locale that writes a month another way\<close>

text \<open>
  C6: the series is meant to be in ascending calendar order, and it is not in a
  runtime whose locale is British English. Two visits of the trailing window, one of
  October 2024 fetched before one of September 2024, give the buckets
  \<^verbatim>\<open>Oct 2024\<close> and \<^verbatim>\<open>Sept 2024\<close>, each with its one visit; \<^verbatim>\<open>Sept\<close> is not a key of
  \<open>monthMap\<close>, the comparator answers NaN, which counts as equal, and the series
  keeps the fetch order, October before September. The comparator is consistent on
  the two buckets, so this is the order in every engine. With the American English
  labels the same visits come out in calendar order.
\<close>

theorem visitTrend_en_GB_fetch_order:
  "in_trailing_window (LocalDate 2024 May) \<lparr>date = LocalDate 2024 Oct\<rparr>
   \<and> in_trailing_window (LocalDate 2024 May) \<lparr>date = LocalDate 2024 Sep\<rparr>
   \<and> visitTrendArray en_GB_format
         (Some [\<lparr>date = LocalDate 2024 Oct\<rparr>, \<lparr>date = LocalDate 2024 Sep\<rparr>])
       = Inr [\<lparr>month = ''Oct 2024'', visits = 1, orders = 1\<rparr>,
              \<lparr>month = ''Sept 2024'', visits = 1, orders = 1\<rparr>]
   \<and> chrono_before (LocalDate 2024 Sep) (LocalDate 2024 Oct)
   \<and> consistent_comparator trend_cmp
         [\<lparr>month = ''Oct 2024'', visits = 1, orders = 1\<rparr>,
          \<lparr>month = ''Sept 2024'', visits = 1, orders = 1\<rparr>]
   \<and> visitTrendArray en_US_format
         (Some [\<lparr>date = LocalDate 2024 Oct\<rparr>, \<lparr>date = LocalDate 2024 Sep\<rparr>])
       = Inr [\<lparr>month = ''Sep 2024'', visits = 1, orders = 1\<rparr>,
              \<lparr>month = ''Oct 2024'', visits = 1, orders = 1\<rparr>]"
  by code_simp

subsection \<open>Pending approvals\<close>

lemma length_map_or_empty:
  "length (map_or_empty f (resp_data r)) = row_count r"
  by (simp add: map_or_empty_def row_count_def split: option.splits)

text \<open>
  C4: when the four pending queries (and the MR-name lookup) succeed, the merged
  pending-approvals list has as many entries as the four source lists together.
\<close>

theorem pendingApprovals_length:
  assumes "resp_error (pendingVisitsQuery q) = None"
      and "resp_error (pendingUsersQuery q) = None"
      and "resp_error (pendingDoctorsQuery q) = None"
      and "resp_error (pendingMedicalVisitsQuery q) = None"
      and "\<And>ids. resp_error (mrDataQuery q ids) = None"
  shows "length (pendingApprovals (fetchPendingApprovals toLocaleDateString q s))
         = row_count (pendingVisitsQuery q) + row_count (pendingUsersQuery q)
           + row_count (pendingDoctorsQuery q) + row_count (pendingMedicalVisitsQuery q)"
proof -
  let ?ids = "array_from_set
      (map_or_empty pv_mr_id (resp_data (pendingVisitsQuery q))
       @ map_or_empty mv_mr_id (resp_data (pendingMedicalVisitsQuery q)))"
  define mrMap where
    "mrMap = (if length ?ids > 0 then mrMap_of (resp_data (mrDataQuery q ?ids)) else [])"
  have lookup: "(if length ?ids > 0 then
               (case resp_error (mrDataQuery q ?ids) of
                  Some e \<Rightarrow> Inl (''Failed to fetch MR data: '' @ message e)
                | None \<Rightarrow> Inr (mrMap_of (resp_data (mrDataQuery q ?ids))))
             else Inr []) = Inr mrMap"
    by (simp add: mrMap_def assms(5))
  have "fetchPendingApprovals_try toLocaleDateString q =
       Inr (map_or_empty (formatPendingVisit toLocaleDateString mrMap) (resp_data (pendingVisitsQuery q))
          @ map_or_empty formatPendingUser (resp_data (pendingUsersQuery q))
          @ map_or_empty formatPendingDoctor (resp_data (pendingDoctorsQuery q))
          @ map_or_empty (formatPendingMedicalVisit toLocaleDateString mrMap)
              (resp_data (pendingMedicalVisitsQuery q)))"
    unfolding fetchPendingApprovals_try_def Let_def lookup
    by (simp add: assms(1-4))
  then show ?thesis
    by (simp add: fetchPendingApprovals_def Let_def length_map_or_empty)
qed

subsection \<open>Core fetch: failures\<close>

lemma core_try_count_failed:
  assumes "count_failed q"
  shows "\<exists>m. fetchCoreDashboardData_try lf q s = (s, Some (''Failed to fetch '' @ m))"
  using assms
  by (auto simp: count_failed_def fetchCoreDashboardData_try_def split: option.splits)

lemma core_try_trend_failed:
  assumes "\<not> count_failed q" "resp_error (allVisitsQuery q) = Some e"
  shows "fetchCoreDashboardData_try lf q s =
           (s\<lparr>stats := fetched_stats q\<rparr>, Some (''Failed to fetch visit trend data: '' @ message e))"
  using assms
  by (simp add: count_failed_def fetchCoreDashboardData_try_def fetched_stats_def Let_def)

theorem pendingApprovals_length_witness:
  "length (pendingApprovals (fetchPendingApprovals (\<lambda>d. d)
      \<lparr>pendingVisitsQuery = Response (Some [\<lparr>pv_id = ''v1'', pv_date = ''2024-03-01'',
           pv_mr_id = ''m1'', pv_doctors = Some ''Dr A''\<rparr>]) None,
       pendingUsersQuery = Response (Some [\<lparr>user_id = ''u1'', user_name = None,
           user_email = None\<rparr>]) None,
       pendingDoctorsQuery = Response (Some []) None,
       pendingMedicalVisitsQuery = Response None None,
       mrDataQuery = (\<lambda>ids. Response (Some [\<lparr>profile_id = ''m1'', profile_name = ''Asha''\<rparr>]) None)\<rparr>
      AdminDashboard_init)) = 2"
  using pendingApprovals_length
    [of "\<lparr>pendingVisitsQuery = Response (Some [\<lparr>pv_id = ''v1'', pv_date = ''2024-03-01'',
           pv_mr_id = ''m1'', pv_doctors = Some ''Dr A''\<rparr>]) None,
       pendingUsersQuery = Response (Some [\<lparr>user_id = ''u1'', user_name = None,
           user_email = None\<rparr>]) None,
       pendingDoctorsQuery = Response (Some []) None,
       pendingMedicalVisitsQuery = Response None None,
       mrDataQuery = (\<lambda>ids. Response (Some [\<lparr>profile_id = ''m1'', profile_name = ''Asha''\<rparr>]) None)\<rparr>"
     "\<lambda>d. d" AdminDashboard_init]
  by (simp add: row_count_def)

subsection \<open>Core fetch: what a failure leaves behind\<close>

lemma core_failed_cases:
  "core_failed q \<longleftrightarrow> count_failed q \<or> (\<not> count_failed q \<and> (\<exists>e. resp_error (allVisitsQuery q) = Some e))"
  by (auto simp: core_failed_def count_failed_def)

theorem core_fetch_partial_stats_counterexample:
  "core_failed
     \<lparr>mrsCount = Response (Some 3) None, doctorsCount = Response (Some 5) None,
      visitsCount = Response (Some 7) None, medicalsCount = Response (Some 2) None,
      allVisitsQuery = Response None (Some \<lparr>message = ''timeout'', code = None\<rparr>)\<rparr>
   \<and> totalMRs (stats (fetchCoreDashboardData en_US_format
     \<lparr>mrsCount = Response (Some 3) None, doctorsCount = Response (Some 5) None,
      visitsCount = Response (Some 7) None, medicalsCount = Response (Some 2) None,
      allVisitsQuery = Response None (Some \<lparr>message = ''timeout'', code = None\<rparr>)\<rparr>
     AdminDashboard_init)) = 3
   \<and> totalMRs (stats AdminDashboard_init) = 0"
  by (simp add: core_failed_def fetchCoreDashboardData_def fetchCoreDashboardData_try_def
      AdminDashboard_init_def count_or_zero_def Let_def)

text \<open>
  C8 (as amended): when a core query returns an error, the fetch sets the page-level
  error to a message that names the failed fetch and leaves the visit trend as it
  was; the stats are left as they were when one of the four count queries failed,
  and are the freshly fetched counts when only the visit-trend query failed.
\<close>

theorem core_fetch_failure:
  assumes "core_failed q"
  shows "(\<exists>m. error (fetchCoreDashboardData lf q s)
               = Some (''Failed to fetch dashboard data: Failed to fetch '' @ m))
       \<and> visitTrend (fetchCoreDashboardData lf q s) = visitTrend s
       \<and> stats (fetchCoreDashboardData lf q s) = (if count_failed q then stats s else fetched_stats q)"
proof (cases "count_failed q")
  case True
  let ?s0 = "s\<lparr>coreLoading := True, error := None\<rparr>"
  obtain m where "fetchCoreDashboardData_try lf q ?s0 = (?s0, Some (''Failed to fetch '' @ m))"
    using core_try_count_failed[OF True, of lf ?s0] by blast
  then show ?thesis using True
    by (simp add: fetchCoreDashboardData_def Let_def)
next
  case False
  let ?s0 = "s\<lparr>coreLoading := True, error := None\<rparr>"
  obtain e where e: "resp_error (allVisitsQuery q) = Some e"
    using assms False core_failed_cases by blast
  have "fetchCoreDashboardData_try lf q ?s0 =
           (?s0\<lparr>stats := fetched_stats q\<rparr>, Some (''Failed to fetch visit trend data: '' @ message e))"
    by (rule core_try_trend_failed[OF False e])
  then show ?thesis using False
    by (simp add: fetchCoreDashboardData_def Let_def)
qed

theorem core_fetch_failure_witness:
  "core_failed
     \<lparr>mrsCount = Response (Some 3) None, doctorsCount = Response None
        (Some \<lparr>message = ''permission denied'', code = None\<rparr>),
      visitsCount = Response (Some 7) None, medicalsCount = Response (Some 2) None,
      allVisitsQuery = Response (Some []) None\<rparr>
   \<and> (\<exists>m. error (fetchCoreDashboardData en_US_format
     \<lparr>mrsCount = Response (Some 3) None, doctorsCount = Response None
        (Some \<lparr>message = ''permission denied'', code = None\<rparr>),
      visitsCount = Response (Some 7) None, medicalsCount = Response (Some 2) None,
      allVisitsQuery = Response (Some []) None\<rparr> AdminDashboard_init)
               = Some (''Failed to fetch dashboard data: Failed to fetch '' @ m))
   \<and> stats (fetchCoreDashboardData en_US_format
     \<lparr>mrsCount = Response (Some 3) None, doctorsCount = Response None
        (Some \<lparr>message = ''permission denied'', code = None\<rparr>),
      visitsCount = Response (Some 7) None, medicalsCount = Response (Some 2) None,
      allVisitsQuery = Response (Some []) None\<rparr> AdminDashboard_init) = stats AdminDashboard_init"
  using core_fetch_failure
    [of "\<lparr>mrsCount = Response (Some 3) None, doctorsCount = Response None
        (Some \<lparr>message = ''permission denied'', code = None\<rparr>),
      visitsCount = Response (Some 7) None, medicalsCount = Response (Some 2) None,
      allVisitsQuery = Response (Some []) None\<rparr>" en_US_format AdminDashboard_init]
  by (simp add: core_failed_def count_failed_def)

subsection \<open>Top MRs\<close>

lemma array_sort_key:
  assumes "\<And>x y. (cmp x y \<le> 0) = (k x \<le> k y)"
  shows "array_sort cmp xs = sort_key k xs"
  using array_sort_map[of xs cmp "\<lambda>x. x" k] assms by simp

lemma perf_visits_comparator_consistent:
  "consistent_comparator (\<lambda>a b. int (perf_visits b) - int (perf_visits a)) xs"
  by (rule consistent_comparator_diff[where k = "\<lambda>p. - int (perf_visits p)"]) simp

lemma mr_performance_fields:
  "perf_name (mr_performance (fullApprovedVisits_of m approvedVisitsData) mr) = profile_name mr"
  "perf_visits (mr_performance (fullApprovedVisits_of m approvedVisitsData) mr)
     = approved_count approvedVisitsData mr"
proof -
  show "perf_name (mr_performance (fullApprovedVisits_of m approvedVisitsData) mr) = profile_name mr"
    by (simp add: mr_performance_def Let_def)
  have "length (filter (\<lambda>visit. mr_id visit = profile_id mr)
            (fullApprovedVisits_of m approvedVisitsData))
        = approved_count approvedVisitsData mr"
    by (cases approvedVisitsData)
       (simp_all add: fullApprovedVisits_of_def map_or_empty_def approved_count_def
          filter_map comp_def)
  then show "perf_visits (mr_performance (fullApprovedVisits_of m approvedVisitsData) mr)
     = approved_count approvedVisitsData mr"
    by (simp add: mr_performance_def Let_def)
qed

lemma fetchAndProcessMRPerformance_ok:
  assumes "resp_error (mrsQuery q) = None"
      and "resp_error (approvedVisitsQuery q a b) = None"
      and "\<And>ids. resp_error (visitOrdersQuery q ids) = None"
  shows "\<exists>m. fetchAndProcessMRPerformance q a b =
           Inr (filter (\<lambda>p. 0 < perf_visits p)
             (sort_key (\<lambda>p. - int (perf_visits p))
               (map_or_empty
                  (mr_performance (fullApprovedVisits_of m (resp_data (approvedVisitsQuery q a b))))
                  (resp_data (mrsQuery q)))))"
proof -
  let ?ids = "map_or_empty row_id (resp_data (approvedVisitsQuery q a b))"
  define rows where
    "rows = (if length ?ids > 0
             then (case resp_data (visitOrdersQuery q ?ids) of None \<Rightarrow> [] | Some r \<Rightarrow> r) else [])"
  have orders: "(if length ?ids > 0 then
               (case resp_error (visitOrdersQuery q ?ids) of
                  Some ordersErrorForVisits \<Rightarrow> Inl ordersErrorForVisits
                | None \<Rightarrow>
                    Inr (case resp_data (visitOrdersQuery q ?ids) of
                           None \<Rightarrow> [] | Some rows \<Rightarrow> rows))
             else Inr []) = Inr rows"
    by (simp add: rows_def assms(3))
  have srt: "\<And>xs. array_sort (\<lambda>a b. int (perf_visits b) - int (perf_visits a)) xs
              = sort_key (\<lambda>p. - int (perf_visits p)) xs"
    by (rule array_sort_key) auto
  show ?thesis
    unfolding fetchAndProcessMRPerformance_def Let_def orders srt
    by (intro exI[of _ "fold visitOrdersMap_step rows []"]) (simp add: assms(1,2))
qed

lemma ranking_properties:
  fixes m :: "(string \<times> VisitOrder list) list"
    and visitsData :: "ApprovedVisitRow list option" and mrsData :: "MRProfile list option"
  defines "r \<equiv> filter (\<lambda>p. 0 < perf_visits p)
             (sort_key (\<lambda>p. - int (perf_visits p))
               (map_or_empty (mr_performance (fullApprovedVisits_of m visitsData)) mrsData))"
  shows "sorted_wrt (\<lambda>x y. perf_visits y \<le> perf_visits x) r"
    and "mset (map (\<lambda>p. (perf_name p, perf_visits p)) r)
         = mset (map (\<lambda>mr. (profile_name mr, approved_count visitsData mr))
             (filter (\<lambda>mr. 0 < approved_count visitsData mr)
                (case mrsData of None \<Rightarrow> [] | Some rows \<Rightarrow> rows)))"
proof -
  let ?k = "\<lambda>p. - int (perf_visits p)"
  let ?perf = "mr_performance (fullApprovedVisits_of m visitsData)"
  let ?xs = "map_or_empty ?perf mrsData"
  let ?mrs = "case mrsData of None \<Rightarrow> [] | Some rows \<Rightarrow> rows"
  have xs: "?xs = map ?perf ?mrs"
    by (simp add: map_or_empty_def split: option.splits)
  have "sorted (map ?k (sort_key ?k ?xs))" by (rule sorted_sort_key)
  then have "sorted (map ?k r)" unfolding r_def by (rule sorted_filter)
  then have "sorted_wrt (\<lambda>x y. ?k x \<le> ?k y) r"
    by (simp add: sorted_wrt_map)
  then show "sorted_wrt (\<lambda>x y. perf_visits y \<le> perf_visits x) r"
    by (rule sorted_wrt_mono_rel[rotated]) simp
  have "mset r = mset (filter (\<lambda>p. 0 < perf_visits p) ?xs)"
    unfolding r_def by (simp only: mset_filter mset_sort)
  also have "\<dots> = mset (map ?perf (filter (\<lambda>mr. 0 < approved_count visitsData mr) ?mrs))"
    unfolding xs by (simp add: filter_map comp_def mr_performance_fields)
  finally have "mset (map (\<lambda>p. (perf_name p, perf_visits p)) r)
      = mset (map (\<lambda>p. (perf_name p, perf_visits p))
          (map ?perf (filter (\<lambda>mr. 0 < approved_count visitsData mr) ?mrs)))"
    by (simp only: mset_map)
  then show "mset (map (\<lambda>p. (perf_name p, perf_visits p)) r)
         = mset (map (\<lambda>mr. (profile_name mr, approved_count visitsData mr))
             (filter (\<lambda>mr. 0 < approved_count visitsData mr) ?mrs))"
    by (simp add: comp_def mr_performance_fields)
qed

text \<open>
  C5: when the queries succeed, the ranking shown for each selectable window (all-time,
  weekly, daily) is in non-increasing order of approved-visit count, and lists exactly
  the MRs with at least one approved visit among the rows the window's query
  returned, each with that count.
\<close>

theorem topMRs_ranking:
  assumes "resp_error (mrsQuery q) = None"
      and "\<And>a b. resp_error (approvedVisitsQuery q a b) = None"
      and "\<And>ids. resp_error (visitOrdersQuery q ids) = None"
  shows "sorted_wrt (\<lambda>x y. perf_visits y \<le> perf_visits x)
           (topMRs (select_topMRs w (fetchTopMRs ie q weeklyStart today s)))
       \<and> mset (map (\<lambda>p. (perf_name p, perf_visits p))
           (topMRs (select_topMRs w (fetchTopMRs ie q weeklyStart today s))))
         = mset (map (\<lambda>mr. (profile_name mr,
                   approved_count (resp_data (approvedVisitsQuery q
                     (fst (window_bounds w weeklyStart today))
                     (snd (window_bounds w weeklyStart today)))) mr))
             (filter (\<lambda>mr. 0 < approved_count (resp_data (approvedVisitsQuery q
                     (fst (window_bounds w weeklyStart today))
                     (snd (window_bounds w weeklyStart today)))) mr)
                (case resp_data (mrsQuery q) of None \<Rightarrow> [] | Some rows \<Rightarrow> rows)))"
proof -
  obtain m1 where r1: "fetchAndProcessMRPerformance q None None =
           Inr (filter (\<lambda>p. 0 < perf_visits p)
             (sort_key (\<lambda>p. - int (perf_visits p))
               (map_or_empty
                  (mr_performance (fullApprovedVisits_of m1 (resp_data (approvedVisitsQuery q None None))))
                  (resp_data (mrsQuery q)))))"
    using fetchAndProcessMRPerformance_ok[OF assms(1) assms(2) assms(3)] by blast
  obtain m2 where r2: "fetchAndProcessMRPerformance q (Some weeklyStart) (Some today) =
           Inr (filter (\<lambda>p. 0 < perf_visits p)
             (sort_key (\<lambda>p. - int (perf_visits p))
               (map_or_empty
                  (mr_performance (fullApprovedVisits_of m2
                     (resp_data (approvedVisitsQuery q (Some weeklyStart) (Some today)))))
                  (resp_data (mrsQuery q)))))"
    using fetchAndProcessMRPerformance_ok[OF assms(1) assms(2) assms(3)] by blast
  obtain m3 where r3: "fetchAndProcessMRPerformance q (Some today) (Some today) =
           Inr (filter (\<lambda>p. 0 < perf_visits p)
             (sort_key (\<lambda>p. - int (perf_visits p))
               (map_or_empty
                  (mr_performance (fullApprovedVisits_of m3
                     (resp_data (approvedVisitsQuery q (Some today) (Some today)))))
                  (resp_data (mrsQuery q)))))"
    using fetchAndProcessMRPerformance_ok[OF assms(1) assms(2) assms(3)] by blast
  show ?thesis
  proof (cases w)
    case weekly
    then show ?thesis
      using ranking_properties[of m2 "resp_data (approvedVisitsQuery q (Some weeklyStart) (Some today))"
          "resp_data (mrsQuery q)"]
      by (simp add: select_topMRs_def fetchTopMRs_def Let_def r1 r2 r3 window_bounds_def)
  next
    case daily
    then show ?thesis
      using ranking_properties[of m3 "resp_data (approvedVisitsQuery q (Some today) (Some today))"
          "resp_data (mrsQuery q)"]
      by (simp add: select_topMRs_def fetchTopMRs_def Let_def r1 r2 r3 window_bounds_def)
  next
    case all_time
    then show ?thesis
      using ranking_properties[of m1 "resp_data (approvedVisitsQuery q None None)"
          "resp_data (mrsQuery q)"]
      by (simp add: select_topMRs_def fetchTopMRs_def Let_def r1 r2 r3 window_bounds_def)
  qed
qed

theorem topMRs_ranking_witness:
  "sorted_wrt (\<lambda>x y. perf_visits y \<le> perf_visits x)
           (topMRs (select_topMRs weekly
              (fetchTopMRs True sample_mr_queries ''2024-03-01'' ''2024-03-08'' AdminDashboard_init)))
       \<and> mset (map (\<lambda>p. (perf_name p, perf_visits p))
           (topMRs (select_topMRs weekly
              (fetchTopMRs True sample_mr_queries ''2024-03-01'' ''2024-03-08'' AdminDashboard_init))))
         = mset (map (\<lambda>mr. (profile_name mr,
                   approved_count (resp_data (approvedVisitsQuery sample_mr_queries
                     (fst (window_bounds weekly ''2024-03-01'' ''2024-03-08''))
                     (snd (window_bounds weekly ''2024-03-01'' ''2024-03-08'')))) mr))
             (filter (\<lambda>mr. 0 < approved_count (resp_data (approvedVisitsQuery sample_mr_queries
                     (fst (window_bounds weekly ''2024-03-01'' ''2024-03-08''))
                     (snd (window_bounds weekly ''2024-03-01'' ''2024-03-08'')))) mr)
                (case resp_data (mrsQuery sample_mr_queries) of None \<Rightarrow> [] | Some rows \<Rightarrow> rows)))"
  using topMRs_ranking
    [where q = sample_mr_queries and w = weekly and ie = True and weeklyStart = "''2024-03-01''"
       and today = "''2024-03-08''" and s = AdminDashboard_init]
  by (simp add: sample_mr_queries_def)

subsection \<open>Loading flags\<close>

lemma fetchCoreDashboardData_coreLoading: "coreLoading (fetchCoreDashboardData lf q s) = False"
  by (simp add: fetchCoreDashboardData_def Let_def split: prod.splits option.splits)

lemma fetchPendingApprovals_pendingLoading:
  "pendingLoading (fetchPendingApprovals f q s) = False"
  by (simp add: fetchPendingApprovals_def Let_def split: sum.splits)

lemma fetchTopMRs_topMRsLoading: "topMRsLoading (fetchTopMRs ie q a b s) = False"
  by (simp add: fetchTopMRs_def Let_def split: sum.splits)

lemma handleApprove_failed:
  "resp_error (write (approve_write t) i) = Some e \<Longrightarrow>
   loading (handleApprove ie write lf q i t s) = False
   \<and> error (handleApprove ie write lf q i t s) = Some (thrown_message ie e)"
  by (simp add: handleApprove_def Let_def)

lemma handleReject_failed:
  "resp_error (write (reject_write t) i) = Some e \<Longrightarrow>
   loading (handleReject ie write lf q i t s) = False
   \<and> error (handleReject ie write lf q i t s) = Some (thrown_message ie e)"
  by (simp add: handleReject_def Let_def)

lemma fetchFilterOptions_try_loading:
  "report_loading (fst (fetchFilterOptions_try r m q s)) = report_loading s"
  by (simp add: fetchFilterOptions_try_def Let_def split: option.splits prod.splits)

lemma fetchFilterOptions_loading: "report_loading (fetchFilterOptions r m q s) = True"
proof -
  obtain s1 thrown where t: "fetchFilterOptions_try r m q (s\<lparr>report_loading := True\<rparr>) = (s1, thrown)"
    by (cases "fetchFilterOptions_try r m q (s\<lparr>report_loading := True\<rparr>)")
  have "report_loading s1 = True"
    using fetchFilterOptions_try_loading[of r m q "s\<lparr>report_loading := True\<rparr>"] t by simp
  then show ?thesis
    by (simp add: fetchFilterOptions_def Let_def t split: option.splits)
qed

lemma fetchFilterOptions_failed:
  "resp_error (mrOptionsQuery q) = Some e \<Longrightarrow>
   report_error (fetchFilterOptions r m q s) = Some ''Failed to fetch MR options''"
  by (simp add: fetchFilterOptions_def fetchFilterOptions_try_def or_default_def Let_def)

lemma fetchReports_loading: "report_loading (fetchReports r m q s) = False"
  by (simp add: fetchReports_def Let_def split: option.splits)

theorem fetchFilterOptions_loading_counterexample:
  "report_error (fetchFilterOptions Admin ''all''
      \<lparr>mrOptionsQuery = Response None (Some \<lparr>message = ''timeout'', code = None\<rparr>),
       doctorOptionsQuery = Response (Some []) None,
       medicineOptionsQuery = Response (Some []) None,
       mrVisitsQuery = (\<lambda>i. Response (Some []) None)\<rparr> ReportPage_init)
     = Some ''Failed to fetch MR options''
   \<and> report_loading (fetchFilterOptions Admin ''all''
      \<lparr>mrOptionsQuery = Response None (Some \<lparr>message = ''timeout'', code = None\<rparr>),
       doctorOptionsQuery = Response (Some []) None,
       medicineOptionsQuery = Response (Some []) None,
       mrVisitsQuery = (\<lambda>i. Response (Some []) None)\<rparr> ReportPage_init) = True"
  by (simp add: fetchFilterOptions_def fetchFilterOptions_try_def or_default_def Let_def
      ReportPage_init_def)

text \<open>
  C9 (as amended): the dashboard's fetches (core data, pending approvals, top MRs)
  and the fetch of the reports end with their loading flag false, also when they
  fail, and a failed approve or reject clears \<open>loading\<close>; the fetch of the filter
  options never clears \<open>loading\<close>, failed or not: it leaves that to the fetch of the
  reports that follows it.
\<close>

theorem loading_flags_after_fetch:
  "coreLoading (fetchCoreDashboardData lf cq s) = False
   \<and> pendingLoading (fetchPendingApprovals f pq s) = False
   \<and> topMRsLoading (fetchTopMRs ie mq a b s) = False
   \<and> (resp_error (write (approve_write t) i) \<noteq> None
        \<longrightarrow> loading (handleApprove ie write lf cq i t s) = False)
   \<and> (resp_error (write (reject_write t) i) \<noteq> None
        \<longrightarrow> loading (handleReject ie write lf cq i t s) = False)
   \<and> report_loading (fetchReports r m rq p) = False
   \<and> report_loading (fetchFilterOptions r m fq p) = True
   \<and> report_loading (fetchReports r m rq (fetchFilterOptions r m fq p)) = False"
  using handleApprove_failed[of "write" t i _ ie lf cq s] handleReject_failed[of "write" t i _ ie lf cq s]
  by (auto simp: fetchCoreDashboardData_coreLoading fetchPendingApprovals_pendingLoading
      fetchTopMRs_topMRsLoading fetchReports_loading fetchFilterOptions_loading)

theorem loading_flags_after_fetch_witness:
  "resp_error (((\<lambda>w i. Response None (Some \<lparr>message = ''denied'', code = None\<rparr>))
        :: string \<times> string \<Rightarrow> string \<Rightarrow> unit response) (approve_write (Approval Doctor)) ''d1'')
      \<noteq> None
   \<and> loading (handleApprove True
        (\<lambda>w i. Response None (Some \<lparr>message = ''denied'', code = None\<rparr>))
        en_US_format
        \<lparr>mrsCount = Response (Some 3) None, doctorsCount = Response (Some 5) None,
         visitsCount = Response (Some 7) None, medicalsCount = Response (Some 2) None,
         allVisitsQuery = Response (Some []) None\<rparr>
        ''d1'' (Approval Doctor) AdminDashboard_init) = False"
  using loading_flags_after_fetch
    [of en_US_format
        "\<lparr>mrsCount = Response (Some 3) None, doctorsCount = Response (Some 5) None,
         visitsCount = Response (Some 7) None, medicalsCount = Response (Some 2) None,
         allVisitsQuery = Response (Some []) None\<rparr>"
        AdminDashboard_init _ _ True _ _ _
        "\<lambda>w i. Response None (Some \<lparr>message = ''denied'', code = None\<rparr>)"
        "Approval Doctor" "''d1''"]
  by simp

subsection \<open>Doctors search\<close>

lemma startsWith_iff: "startsWith s t \<longleftrightarrow> (\<exists>r. s = t @ r)"
  by (induction s t rule: startsWith.induct) auto

lemma includes_iff: "includes_str s t \<longleftrightarrow> (\<exists>p r. s = p @ t @ r)"
proof (induction s)
  case Nil
  show ?case by auto
next
  case (Cons x xs)
  show ?case
  proof
    assume "includes_str (x # xs) t"
    then consider "startsWith (x # xs) t" | "includes_str xs t" by auto
    then show "\<exists>p r. x # xs = p @ t @ r"
    proof cases
      case 1
      then obtain r where "x # xs = t @ r" using startsWith_iff by blast
      then have "x # xs = [] @ t @ r" by simp
      then show ?thesis by blast
    next
      case 2
      then obtain p r where "xs = p @ t @ r" using Cons.IH by blast
      then have "x # xs = (x # p) @ t @ r" by simp
      then show ?thesis by blast
    qed
  next
    assume "\<exists>p r. x # xs = p @ t @ r"
    then obtain p r where pr: "x # xs = p @ t @ r" by blast
    show "includes_str (x # xs) t"
    proof (cases p)
      case Nil
      then have "startsWith (x # xs) t" using pr startsWith_iff by auto
      then show ?thesis by simp
    next
      case (Cons y p')
      then have "xs = p' @ t @ r" using pr by simp
      then have "includes_str xs t" using Cons.IH by blast
      then show ?thesis by simp
    qed
  qed
qed

lemma includes_empty: "includes_str s []"
  by (cases s) simp_all

lemma char_toLowerCase_space:
  assumes "is_space y"
  shows "(char_toLowerCase x = y) = (x = y)"
proof (cases "65 \<le> (of_char x :: nat) \<and> (of_char x :: nat) \<le> 90")
  case False
  then show ?thesis by (auto simp: char_toLowerCase_def Let_def)
next
  case True
  have y: "(of_char y :: nat) \<le> 32"
    using assms by (auto simp: is_space_def)
  have "(of_char (char_of (of_char x + 32 :: nat)) :: nat) = of_char x + 32"
    using True by (simp add: of_char_of)
  then have "char_of (of_char x + 32 :: nat) \<noteq> y" using y True by auto
  moreover have "x \<noteq> y" using y True by auto
  ultimately show ?thesis using True by (simp add: char_toLowerCase_def Let_def)
qed

lemma toLowerCase_spaces: "list_all is_space t \<Longrightarrow> toLowerCase t = t"
  using char_toLowerCase_space
  by (induction t) (simp_all add: toLowerCase_def)

lemma startsWith_lower:
  "list_all is_space t \<Longrightarrow> startsWith (toLowerCase s) t = startsWith s t"
proof (induction s t rule: startsWith.induct)
  case (3 x xs y ys)
  then show ?case
    using char_toLowerCase_space[of y x] by (simp add: toLowerCase_def)
qed (simp_all add: toLowerCase_def)

lemma includes_lower:
  "list_all is_space t \<Longrightarrow> includes_str (toLowerCase s) t = includes_str s t"
proof (induction s)
  case Nil
  show ?case by (simp add: toLowerCase_def)
next
  case (Cons x xs)
  have "startsWith (toLowerCase (x # xs)) t = startsWith (x # xs) t"
    using Cons.prems by (rule startsWith_lower)
  moreover have "includes_str (toLowerCase xs) t = includes_str xs t"
    using Cons by simp
  ultimately show ?case by (simp add: toLowerCase_def)
qed

lemma search_whitespace:
  "list_all is_space t \<Longrightarrow> includes_str (toLowerCase s) (toLowerCase t) = includes_str s t"
  by (simp add: toLowerCase_spaces includes_lower)

lemma filter_throwing_total:
  "(\<And>x. x \<in> set xs \<Longrightarrow> p x = Inr (q x)) \<Longrightarrow> filter_throwing p xs = Inr (filter q xs)"
  by (induction xs) simp_all

lemma admin_doctor_matches_whitespace:
  assumes "list_all is_space t" and "has_area d"
  shows "admin_doctor_matches t d = Inr (holds_term_admin t d)"
proof -
  obtain a where a: "area d = Some a"
    using assms(2) by (cases "area d") (simp_all add: has_area_def)
  show ?thesis
    unfolding admin_doctor_matches_def holds_term_admin_def holds_term_def
    by (simp add: search_whitespace[OF assms(1)] a)
qed

theorem filteredDoctors_whitespace_counterexample:
  "list_all is_space '' ''
   \<and> filteredDoctors sample_doctors '' '' \<noteq> sample_doctors
   \<and> filteredDoctors sample_doctors '' '' \<noteq> []"
  by code_simp

text \<open>
  C7 (as amended): for a search term of white space only, the filter of the MR's
  doctors list, which does not trim the term, returns exactly the doctors that have
  the term as it was typed inside their name, specialization, hospital or address:
  the full list when every doctor has such a field (as for the empty term), the empty
  list when none has, and a proper non-empty part of the list otherwise. The filter
  of the admin's doctors table does the same, with the area as a fifth field, on a
  list in which every doctor has an area.
\<close>

theorem filteredDoctors_whitespace:
  assumes "list_all is_space t"
  shows "filteredDoctors ds t = filter (holds_term t) ds
       \<and> (filteredDoctors ds t = ds) = list_all (holds_term t) ds
       \<and> (filteredDoctors ds t = []) = list_all (\<lambda>d. \<not> holds_term t d) ds
       \<and> filteredDoctors ds [] = ds
       \<and> (list_all has_area ds
            \<longrightarrow> filteredDoctors_admin ds t = Inr (filter (holds_term_admin t) ds))"
proof -
  have a: "filteredDoctors ds t = filter (holds_term t) ds"
    unfolding filteredDoctors_def holds_term_def
    by (simp add: search_whitespace[OF assms])
  have b: "list_all has_area ds
            \<longrightarrow> filteredDoctors_admin ds t = Inr (filter (holds_term_admin t) ds)"
  proof
    assume "list_all has_area ds"
    then have "\<And>d. d \<in> set ds \<Longrightarrow> admin_doctor_matches t d = Inr (holds_term_admin t d)"
      using admin_doctor_matches_whitespace[OF assms] by (simp add: list_all_iff)
    then show "filteredDoctors_admin ds t = Inr (filter (holds_term_admin t) ds)"
      unfolding filteredDoctors_admin_def by (rule filter_throwing_total)
  qed
  have c: "(filter (holds_term t) ds = ds) = list_all (holds_term t) ds"
    by (simp add: filter_id_conv list_all_iff)
  have d: "(filter (holds_term t) ds = []) = list_all (\<lambda>d. \<not> holds_term t d) ds"
    by (simp add: filter_empty_conv list_all_iff)
  have e: "filteredDoctors ds [] = ds"
    by (simp add: filteredDoctors_def toLowerCase_def includes_empty)
  show ?thesis using a b c d e by simp
qed

theorem filteredDoctors_whitespace_witness:
  "list_all is_space '' ''
   \<and> list_all has_area sample_doctors
   \<and> filteredDoctors sample_doctors '' '' = filter (holds_term '' '') sample_doctors
   \<and> filteredDoctors sample_doctors [] = sample_doctors
   \<and> filteredDoctors_admin sample_doctors '' ''
       = Inr (filter (holds_term_admin '' '') sample_doctors)"
proof -
  have sp: "list_all is_space '' ''" by (simp add: is_space_def)
  have ar: "list_all has_area sample_doctors" by (simp add: sample_doctors_def has_area_def)
  show ?thesis
    using filteredDoctors_whitespace[OF sp, of sample_doctors] sp ar by simp
qed

text \<open>
  A row whose area is \<^verbatim>\<open>null\<close> and whose other fields do not hold the term: the admin's
  filter reads the area and throws.
\<close>

lemma filteredDoctors_admin_null_area:
  "filteredDoctors_admin
     [\<lparr>doc_id = ''d3'', doc_name = ''Ravi'', specialization = ''ENT'', hospital = ''Ruby'',
       address = ''Deccan'', area = None, is_verified = False\<rparr>] '' ''
   = Inl ''TypeError: Cannot read properties of null (reading 'toLowerCase')''"
  by code_simp

subsection \<open>Sortable table\<close>

lemma insort_cmp_sorted:
  assumes total: "\<And>a b. cmp a b \<le> 0 \<or> cmp b a \<le> 0"
      and trans: "\<And>a b c. cmp a b \<le> 0 \<Longrightarrow> cmp b c \<le> 0 \<Longrightarrow> cmp a c \<le> 0"
      and "sorted_wrt (\<lambda>a b. cmp a b \<le> 0) ys"
  shows "sorted_wrt (\<lambda>a b. cmp a b \<le> 0) (insort_cmp cmp x ys)"
  using assms(3)
proof (induction ys)
  case Nil
  show ?case by simp
next
  case (Cons y ys)
  show ?case
  proof (cases "cmp x y \<le> 0")
    case True
    then have "\<forall>z\<in>set (y # ys). cmp x z \<le> 0"
      using Cons.prems trans by auto
    then show ?thesis using True Cons.prems by simp
  next
    case False
    then have "cmp y x \<le> 0" using total by blast
    then have "\<forall>z\<in>set (insort_cmp cmp x ys). cmp y z \<le> 0"
      using Cons.prems by (auto simp: set_insort_cmp)
    moreover have "sorted_wrt (\<lambda>a b. cmp a b \<le> 0) (insort_cmp cmp x ys)"
      using Cons by simp
    ultimately show ?thesis using False by simp
  qed
qed

lemma array_sort_sorted:
  assumes "\<And>a b. cmp a b \<le> 0 \<or> cmp b a \<le> 0"
      and "\<And>a b c. cmp a b \<le> 0 \<Longrightarrow> cmp b c \<le> 0 \<Longrightarrow> cmp a c \<le> 0"
  shows "sorted_wrt (\<lambda>a b. cmp a b \<le> 0) (array_sort cmp xs)"
proof (induction xs)
  case Nil
  show ?case by (simp add: array_sort_def)
next
  case (Cons x xs)
  have "array_sort cmp (x # xs) = insort_cmp cmp x (array_sort cmp xs)"
    by (simp add: array_sort_def)
  then show ?case
    using insort_cmp_sorted[of cmp "array_sort cmp xs" x, OF assms Cons] by simp
qed

lemma array_sort_id:
  "sorted_wrt (\<lambda>a b. cmp a b \<le> 0) xs \<Longrightarrow> array_sort cmp xs = xs"
proof (induction xs)
  case Nil
  show ?case by (simp add: array_sort_def)
next
  case (Cons x xs)
  then have ih: "array_sort cmp xs = xs" by simp
  have "array_sort cmp (x # xs) = insort_cmp cmp x (array_sort cmp xs)"
    by (simp add: array_sort_def)
  also have "\<dots> = insort_cmp cmp x xs" by (simp only: ih)
  also have "\<dots> = x # xs" using Cons.prems by (cases xs) simp_all
  finally show ?case .
qed

lemma compare_column_total:
  "compare_column col dir a b \<le> 0 \<or> compare_column col dir b a \<le> 0"
  by (cases dir) (auto simp: compare_column_def Let_def)

lemma compare_column_le:
  "(compare_column col Asc a b \<le> 0) = (a col \<le> b col)"
  "(compare_column col Desc a b \<le> 0) = (b col \<le> a col)"
  by (auto simp: compare_column_def Let_def)

lemma compare_column_trans:
  "compare_column col dir a b \<le> 0 \<Longrightarrow> compare_column col dir b c \<le> 0
     \<Longrightarrow> compare_column col dir a c \<le> 0"
  by (cases dir) (auto simp: compare_column_le)

text \<open>
  C2: sorting by a column and a direction an array that was already sorted by the
  same column and direction gives that array back.
\<close>

theorem sortData_idempotent:
  "sortData col dir (sortData col dir data') = sortData col dir data'"
proof -
  have "sorted_wrt (\<lambda>a b. compare_column col dir a b \<le> 0) (sortData col dir data')"
    unfolding sortData_def
    by (rule array_sort_sorted) (rule compare_column_total, rule compare_column_trans)
  then show ?thesis
    unfolding sortData_def by (rule array_sort_id)
qed

lemma compare_column_consistent: "consistent_comparator (compare_column col dir) xs"
  unfolding consistent_comparator_def list_all_iff
  by (cases dir) (auto simp: compare_column_def Let_def)

end
